theory Spec2Isabelle
  imports
    Complex_Main
    "HOL-Library.Sublist"
    "HOL-Library.AList"
    "HOL-Library.Product_Lexorder"
    "HOL-Library.List_Lexorder"
begin

section \<open>Text: Python strings and the built-ins the classifiers call\<close>

text \<open>
  A Python \<open>str\<close> is a sequence of Unicode code points, modelled as a list of naturals.
  Literals of the source are written \<open>u ''gol''\<close>; the one non-ASCII letter of the
  keyword tables, o with acute accent, is code point 243 (the source file is in NFC).
\<close>

type_synonym ustr = "nat list"

definition u :: "string \<Rightarrow> ustr" where
  "u s = map of_char s"

text \<open>
  The built-ins \<open>unicodedata.normalize\<close>, \<open>str.isalnum\<close>, \<open>str.isspace\<close>,
  \<open>str.lower\<close>, the iteration of a \<open>set\<close> and the arithmetic of \<open>float\<close> are not
  code of the repository. What they do on ASCII is written out below; the rest is read
  from a parameter, the runtime, so that every theorem holds whatever the runtime is:
  \<^item> the Unicode character database beyond ASCII (\<open>*_ext\<close>);
  \<^item> \<open>str_hash\<close>, the hash of a string, which fixes the order in which a set of
    strings is iterated (it changes from one process to the next);
  \<^item> \<open>to_double\<close>, the rounding of an exact quotient or product to the nearest
    \<open>float\<close> (a float is modelled as the rational number it denotes).
\<close>

record runtime =
  nfkd_ext :: "ustr \<Rightarrow> ustr"
  isalnum_ext :: "nat \<Rightarrow> bool"
  isspace_ext :: "nat \<Rightarrow> bool"
  lower_ext :: "ustr \<Rightarrow> nat \<Rightarrow> ustr \<Rightarrow> ustr"
  isdecimal_ext :: "nat \<Rightarrow> bool"
  digit_ext :: "nat \<Rightarrow> nat"
  str_hash :: "ustr \<Rightarrow> nat"
  to_double :: "rat \<Rightarrow> rat"

text \<open>\<open>str.isspace\<close>: on ASCII the blank, TAB..CR and the separators FS..US.\<close>

definition isspace :: "runtime \<Rightarrow> nat \<Rightarrow> bool" where
  "isspace R c =
     (if c < 128 then c = 32 \<or> (9 \<le> c \<and> c \<le> 13) \<or> (28 \<le> c \<and> c \<le> 31)
      else isspace_ext R c)"

definition isalnum :: "runtime \<Rightarrow> nat \<Rightarrow> bool" where
  "isalnum R c =
     (if c < 128 then (48 \<le> c \<and> c \<le> 57) \<or> (65 \<le> c \<and> c \<le> 90) \<or> (97 \<le> c \<and> c \<le> 122)
      else isalnum_ext R c)"

text \<open>
  \<open>str.lower\<close>: an ASCII capital moves by 32; any other code point is lowered by the
  database, which sees the text before and after it (the final-sigma rule is contextual).
\<close>

fun lower_from :: "runtime \<Rightarrow> ustr \<Rightarrow> ustr \<Rightarrow> ustr" where
  "lower_from R seen [] = []"
| "lower_from R seen (c # cs) =
     (if c < 128 then [if 65 \<le> c \<and> c \<le> 90 then c + 32 else c] else lower_ext R seen c cs)
     @ lower_from R (seen @ [c]) cs"

definition lower :: "runtime \<Rightarrow> ustr \<Rightarrow> ustr" where
  "lower R s = lower_from R [] s"

text \<open>\<open>str.strip()\<close> drops the leading and the trailing whitespace.\<close>

definition strip :: "runtime \<Rightarrow> ustr \<Rightarrow> ustr" where
  "strip R s = rev (dropWhile (isspace R) (rev (dropWhile (isspace R) s)))"

text \<open>
  \<open>unicodedata.normalize("NFKD", s)\<close>: an ASCII code point is its own decomposition and
  is a starter, so marks are never reordered across it; each maximal run of other code
  points is decomposed by the database.
\<close>

definition nfkd_run :: "runtime \<Rightarrow> ustr \<Rightarrow> ustr" where
  "nfkd_run R run = (if run = [] then [] else nfkd_ext R run)"

fun nfkd_from :: "runtime \<Rightarrow> ustr \<Rightarrow> ustr \<Rightarrow> ustr" where
  "nfkd_from R run [] = nfkd_run R run"
| "nfkd_from R run (c # cs) =
     (if c < 128 then nfkd_run R run @ c # nfkd_from R [] cs
      else nfkd_from R (run @ [c]) cs)"

definition nfkd :: "runtime \<Rightarrow> ustr \<Rightarrow> ustr" where
  "nfkd R s = nfkd_from R [] s"

text \<open>
  Iterating a set of strings visits its elements in an order fixed by their hashes:
  some permutation of the elements, here the stable sort of the literal by \<open>str_hash\<close>
  (any order of distinct elements is the sort by some hash).
\<close>

definition set_iter :: "runtime \<Rightarrow> ustr list \<Rightarrow> ustr list" where
  "set_iter R elements = sort_key (str_hash R) elements"

text \<open>The test \<open>needle in haystack\<close> on strings: the needle starts at some position.\<close>

fun py_in :: "ustr \<Rightarrow> ustr \<Rightarrow> bool" where
  "py_in needle [] = (needle = [])"
| "py_in needle (c # cs) = (prefix needle (c # cs) \<or> py_in needle cs)"

text \<open>
  The built-ins on numbers. A quotient \<open>a / b\<close> of integers raises
  \<open>ZeroDivisionError\<close> at \<open>b = 0\<close> and is otherwise the float nearest to the exact
  quotient; \<open>round(x)\<close> rounds to the nearest integer, \<open>round(x, 1)\<close> to one decimal
  place, both with ties to the even neighbour.
\<close>

datatype error = KeyError ustr | ZeroDivisionError | AttributeError

definition py_truediv :: "runtime \<Rightarrow> int \<Rightarrow> int \<Rightarrow> error + rat" where
  "py_truediv R a b = (if b = 0 then Inl ZeroDivisionError else Inr (to_double R (of_int a / of_int b)))"

definition py_times100 :: "runtime \<Rightarrow> rat \<Rightarrow> rat" where
  "py_times100 R x = to_double R (x * 100)"

definition round_half_even :: "rat \<Rightarrow> int" where
  "round_half_even x =
     (let f = \<lfloor>x\<rfloor>; d = x - of_int f
      in if d < 1 / 2 then f else if 1 / 2 < d then f + 1 else if even f then f else f + 1)"

definition py_round1 :: "runtime \<Rightarrow> rat \<Rightarrow> rat" where
  "py_round1 R x = to_double R (of_int (round_half_even (x * 10)) / 10)"

section \<open>Keyword tables of \<open>football/views.py\<close>\<close>

text \<open>
  The source writes the keyword tables as set literals; their elements are listed here
  in the order of the source, and every loop over one goes through \<open>set_iter\<close>.
\<close>

definition SUCCESS_RESULTS :: "ustr list" where
  "SUCCESS_RESULTS =
     [u ''ok'', u ''ganado'', u ''g'', u ''gan'' @ [243], u ''goles'', u ''anotado'', u ''marcado'']"

definition DUEL_EVENT_KEYWORDS :: "ustr list" where
  "DUEL_EVENT_KEYWORDS =
     [u ''duelo'', u ''regate'', u ''regates'', u ''robo'', u ''robado'',
      u ''intercepci'' @ [243] @ u ''n'', u ''intervenci'' @ [243] @ u ''n'',
      u ''entrada'', u ''entradas'', u ''recuperaci'' @ [243] @ u ''n'', u ''recuperado'',
      u ''falta cometida'', u ''falta recibida'', u ''presi'' @ [243] @ u ''n'', u ''presionado'',
      u ''error forzado'', u ''error'', u ''disputa'']"

definition DUEL_SUCCESS_KEYWORD :: "ustr list" where
  "DUEL_SUCCESS_KEYWORD =
     [u ''ganado'', u ''recuperado'', u ''ok'', u ''fortaleza'', u ''favorable'', u ''superado'']"

definition SHOT_KEYWORDS :: "ustr list" where
  "SHOT_KEYWORDS = [u ''tiro'', u ''remate'', u ''disparo'', u ''chuza'', u ''chute'']"

definition PASS_KEYWORDS :: "ustr list" where
  "PASS_KEYWORDS = [u ''pase'', u ''pases'', u ''pase clave'', u ''pase al hueco'']"

definition GOAL_KEYWORDS :: "ustr list" where
  "GOAL_KEYWORDS = [u ''gol'', u ''goles'', u ''anotado'', u ''marcado'', u ''goal'']"

definition ASSIST_KEYWORDS :: "ustr list" where
  "ASSIST_KEYWORDS = [u ''asistencia'', u ''asist'', u ''pase gol'', u ''asiste'']"

definition YELLOW_CARD_KEYWORDS :: "ustr list" where
  "YELLOW_CARD_KEYWORDS = [u ''amarilla'', u ''tarjeta amarilla'']"

definition RED_CARD_KEYWORDS :: "ustr list" where
  "RED_CARD_KEYWORDS = [u ''roja'', u ''tarjeta roja'']"

definition SUBSTITUTION_KEYWORDS :: "ustr list" where
  "SUBSTITUTION_KEYWORDS = [u ''sustitucion'', u ''sustituci'' @ [243] @ u ''n'', u ''cambio'']"

definition SUB_ENTRY_KEYWORDS :: "ustr list" where
  "SUB_ENTRY_KEYWORDS = [u ''entrada'', u ''entrante'', u ''subida'']"

definition SUB_EXIT_KEYWORDS :: "ustr list" where
  "SUB_EXIT_KEYWORDS = [u ''salida'', u ''saliente'', u ''bajada'']"

text \<open>
  \<open>ZONE_MAP\<close>, \<open>POSITION_MAP\<close> and \<open>TERCIO_MAP\<close> are dict literals: their items are
  iterated in the order written.
\<close>

definition ZONE_MAP :: "(ustr \<times> ustr) list" where
  "ZONE_MAP =
     [(u ''defensa izquierda'', u ''Defensa Izquierda''),
      (u ''lateral izquierdo'', u ''Defensa Izquierda''),
      (u ''carril izquierdo'', u ''Defensa Izquierda''),
      (u ''costa izquierda'', u ''Defensa Izquierda''),
      (u ''defensa izquierda centro'', u ''Defensa Izquierda''),
      (u ''defensa central'', u ''Defensa Centro''),
      (u ''central'', u ''Defensa Centro''),
      (u ''zona central'', u ''Defensa Centro''),
      (u ''defensa derecha'', u ''Defensa Derecha''),
      (u ''lateral derecho'', u ''Defensa Derecha''),
      (u ''carril derecho'', u ''Defensa Derecha''),
      (u ''costa derecha'', u ''Defensa Derecha''),
      (u ''medio izquierdo'', u ''Medio Izquierdo''),
      (u ''medio centro'', u ''Medio Centro''),
      (u ''mediocentro'', u ''Medio Centro''),
      (u ''medio derecho'', u ''Medio Derecho''),
      (u ''media punta'', u ''Ataque Centro''),
      (u ''pivote'', u ''Medio Centro''),
      (u ''central ofensivo'', u ''Medio Centro''),
      (u ''ataque izquierdo'', u ''Ataque Izquierda''),
      (u ''extremo izquierdo'', u ''Ataque Izquierda''),
      (u ''delantero izquierdo'', u ''Ataque Izquierda''),
      (u ''ataque centro'', u ''Ataque Centro''),
      (u ''delantero centro'', u ''Ataque Centro''),
      (u ''punta'', u ''Ataque Centro''),
      (u ''ataque derecho'', u ''Ataque Derecha''),
      (u ''delantero derecho'', u ''Ataque Derecha''),
      (u ''extremo derecho'', u ''Ataque Derecha''),
      (u ''delantero'', u ''Ataque Centro''),
      (u ''atacante'', u ''Ataque Centro''),
      (u ''delanztero'', u ''Ataque Centro'')]"

definition POSITION_MAP :: "(ustr \<times> ustr) list" where
  "POSITION_MAP =
     [(u ''defensa izquierda'', u ''Defensa Izquierda''),
      (u ''lateral izquierdo'', u ''Defensa Izquierda''),
      (u ''carril izquierdo'', u ''Defensa Izquierda''),
      (u ''izquierda'', u ''Defensa Izquierda''),
      (u ''defensa central'', u ''Defensa Centro''),
      (u ''central'', u ''Defensa Centro''),
      (u ''defensa derecha'', u ''Defensa Derecha''),
      (u ''lateral derecho'', u ''Defensa Derecha''),
      (u ''carril derecho'', u ''Defensa Derecha''),
      (u ''derecha'', u ''Defensa Derecha''),
      (u ''medio izquierdo'', u ''Medio Izquierdo''),
      (u ''medio centro'', u ''Medio Centro''),
      (u ''mediocentro'', u ''Medio Centro''),
      (u ''medio derecho'', u ''Medio Derecho''),
      (u ''pivote'', u ''Medio Centro''),
      (u ''delantero izquierdo'', u ''Ataque Izquierda''),
      (u ''ataque izquierdo'', u ''Ataque Izquierda''),
      (u ''extremo izquierdo'', u ''Ataque Izquierda''),
      (u ''delantero centro'', u ''Ataque Centro''),
      (u ''ataque centro'', u ''Ataque Centro''),
      (u ''delantero derecho'', u ''Ataque Derecha''),
      (u ''ataque derecho'', u ''Ataque Derecha''),
      (u ''extremo derecho'', u ''Ataque Derecha''),
      (u ''punta'', u ''Ataque Centro''),
      (u ''delantero'', u ''Ataque Centro''),
      (u ''atacante'', u ''Ataque Centro'')]"

definition TERCIO_MAP :: "(ustr \<times> ustr) list" where
  "TERCIO_MAP =
     [(u ''ataque'', u ''Ataque''),
      (u ''ofensivo'', u ''Ataque''),
      (u ''zona ataque'', u ''Ataque''),
      (u ''finalizaci'' @ [243] @ u ''n'', u ''Ataque''),
      (u ''propia'', u ''Defensa''),
      (u ''defensa'', u ''Defensa''),
      (u ''defensivo'', u ''Defensa''),
      (u ''construccion'', u ''Construcci'' @ [243] @ u ''n''),
      (u ''construcci'' @ [243] @ u ''n'', u ''Construcci'' @ [243] @ u ''n''),
      (u ''medio'', u ''Construcci'' @ [243] @ u ''n''),
      (u ''progresi'' @ [243] @ u ''n'', u ''Construcci'' @ [243] @ u ''n''),
      (u ''posesi'' @ [243] @ u ''n'', u ''Construcci'' @ [243] @ u ''n''),
      (u ''control'', u ''Construcci'' @ [243] @ u ''n''),
      (u ''ataque centro'', u ''Ataque''),
      (u ''ataque izquierdo'', u ''Ataque'')]"

text \<open>
  \<open>_build_field_zones\<close>: three sections crossed with three lanes. The entries
  \<open>left\<close>, \<open>top\<close>, \<open>width\<close> and \<open>height\<close> of the source are the same numbers printed with a
  percent sign and are left out.
\<close>

record field_zone =
  fz_key :: ustr
  fz_label :: ustr
  fz_left_pct :: nat
  fz_top_pct :: nat
  fz_width_pct :: nat
  fz_height_pct :: nat

definition FIELD_ZONES :: "field_zone list" where
  "FIELD_ZONES =
     concat (map (\<lambda>(section_key, left_pct, width_pct).
        map (\<lambda>(suffix, top_pct, height_pct).
               \<lparr> fz_key = section_key @ u '' '' @ suffix, fz_label = section_key @ u '' '' @ suffix,
                 fz_left_pct = left_pct, fz_top_pct = top_pct,
                 fz_width_pct = width_pct, fz_height_pct = height_pct \<rparr>)
          [(u ''Izquierda'', 0, 33), (u ''Centro'', 33, 34), (u ''Derecha'', 67, 33)])
       [(u ''Defensa'', 0, 35), (u ''Medio'', 35, 30), (u ''Ataque'', 65, 35)])"

definition FIELD_ZONE_KEYS :: "ustr list" where
  "FIELD_ZONE_KEYS = map fz_key FIELD_ZONES"

definition STANDARD_TERCIO_LABELS :: "ustr list" where
  "STANDARD_TERCIO_LABELS = [u ''Ataque'', u ''Construcci'' @ [243] @ u ''n'', u ''Defensa'']"

section \<open>The normaliser and the classifiers\<close>

text \<open>
  \<open>normalize_label\<close>: a field that is \<open>None\<close> or empty gives the empty string; otherwise
  the text is decomposed, filtered to alphanumerics and whitespace, lowered and stripped.
\<close>

definition normalize_label :: "runtime \<Rightarrow> ustr option \<Rightarrow> ustr" where
  "normalize_label R value =
     (case value of
        None \<Rightarrow> []
      | Some v \<Rightarrow>
          if v = [] then []
          else strip R (lower R (filter (\<lambda>ch. isalnum R ch \<or> isspace R ch) (nfkd R v))))"

definition contains_keyword :: "runtime \<Rightarrow> ustr option \<Rightarrow> ustr list \<Rightarrow> bool" where
  "contains_keyword R value keywords =
     (let normalized = normalize_label R value
      in list_ex (\<lambda>keyword. py_in keyword normalized) (set_iter R keywords))"

definition result_is_success :: "runtime \<Rightarrow> ustr \<Rightarrow> bool" where
  "result_is_success R result =
     (if result = [] then False
      else let normalized = lower R (strip R result) in normalized \<in> set SUCCESS_RESULTS)"

definition is_goal_event :: "runtime \<Rightarrow> ustr option \<Rightarrow> ustr option \<Rightarrow> ustr option \<Rightarrow> bool" where
  "is_goal_event R event_type result observation =
     (contains_keyword R event_type GOAL_KEYWORDS
      \<or> contains_keyword R result GOAL_KEYWORDS
      \<or> contains_keyword R observation GOAL_KEYWORDS)"

definition is_assist_event :: "runtime \<Rightarrow> ustr option \<Rightarrow> ustr option \<Rightarrow> ustr option \<Rightarrow> bool" where
  "is_assist_event R event_type result observation =
     (contains_keyword R event_type ASSIST_KEYWORDS
      \<or> contains_keyword R result ASSIST_KEYWORDS
      \<or> contains_keyword R observation ASSIST_KEYWORDS)"

definition is_yellow_card_event :: "runtime \<Rightarrow> ustr option \<Rightarrow> ustr option \<Rightarrow> ustr option \<Rightarrow> bool" where
  "is_yellow_card_event R event_type result zone =
     (contains_keyword R event_type YELLOW_CARD_KEYWORDS
      \<or> contains_keyword R result YELLOW_CARD_KEYWORDS
      \<or> contains_keyword R zone YELLOW_CARD_KEYWORDS)"

definition is_red_card_event :: "runtime \<Rightarrow> ustr option \<Rightarrow> ustr option \<Rightarrow> ustr option \<Rightarrow> bool" where
  "is_red_card_event R event_type result zone =
     (contains_keyword R event_type RED_CARD_KEYWORDS
      \<or> contains_keyword R result RED_CARD_KEYWORDS
      \<or> contains_keyword R zone RED_CARD_KEYWORDS)"

definition is_substitution_event :: "runtime \<Rightarrow> ustr option \<Rightarrow> ustr option \<Rightarrow> bool" where
  "is_substitution_event R event_type zone =
     (contains_keyword R event_type SUBSTITUTION_KEYWORDS
      \<or> contains_keyword R zone SUBSTITUTION_KEYWORDS)"

definition is_substitution_entry :: "runtime \<Rightarrow> ustr option \<Rightarrow> ustr option \<Rightarrow> ustr option \<Rightarrow> bool" where
  "is_substitution_entry R event_type result zone =
     (if \<not> is_substitution_event R event_type zone then False
      else contains_keyword R result SUB_ENTRY_KEYWORDS \<or> contains_keyword R zone SUB_ENTRY_KEYWORDS)"

definition is_substitution_exit :: "runtime \<Rightarrow> ustr option \<Rightarrow> ustr option \<Rightarrow> ustr option \<Rightarrow> bool" where
  "is_substitution_exit R event_type result zone =
     (if \<not> is_substitution_event R event_type zone then False
      else contains_keyword R result SUB_EXIT_KEYWORDS \<or> contains_keyword R zone SUB_EXIT_KEYWORDS)"

definition min_or_none :: "nat option \<Rightarrow> nat option \<Rightarrow> nat option" where
  "min_or_none current candidate =
     (case candidate of
        None \<Rightarrow> current
      | Some c \<Rightarrow> (case current of None \<Rightarrow> Some c | Some cur \<Rightarrow> Some (min cur c)))"

text \<open>
  \<open>extract_round_number\<close>: the first maximal run of decimal digits (\<open>re.search\<close> of
  \<open>(\d+)\<close>), read as a number. \<open>int\<close> cannot fail on such a run.
\<close>

definition isdecimal :: "runtime \<Rightarrow> nat \<Rightarrow> bool" where
  "isdecimal R c = (if c < 128 then 48 \<le> c \<and> c \<le> 57 else isdecimal_ext R c)"

definition digit :: "runtime \<Rightarrow> nat \<Rightarrow> nat" where
  "digit R c = (if c < 128 then c - 48 else digit_ext R c)"

definition extract_round_number :: "runtime \<Rightarrow> ustr \<Rightarrow> int option" where
  "extract_round_number R value =
     (if value = [] then None
      else let digits = takeWhile (isdecimal R) (dropWhile (\<lambda>c. \<not> isdecimal R c) value)
           in if digits = [] then None
              else Some (int (foldl (\<lambda>n c. 10 * n + digit R c) 0 digits)))"

definition is_duel_event :: "runtime \<Rightarrow> ustr option \<Rightarrow> ustr option \<Rightarrow> bool" where
  "is_duel_event R event_type observation =
     (let normalized = normalize_label R event_type
      in if normalized = [] then False
         else if list_ex (\<lambda>keyword. py_in keyword normalized) (set_iter R DUEL_EVENT_KEYWORDS) then True
         else if observation \<noteq> None \<and> observation \<noteq> Some []
                 \<and> list_ex (\<lambda>keyword. py_in keyword (normalize_label R observation))
                      (set_iter R DUEL_EVENT_KEYWORDS) then True
         else False)"

definition duel_result_is_success :: "runtime \<Rightarrow> ustr \<Rightarrow> bool" where
  "duel_result_is_success R result =
     (if result = [] then False
      else let normalized = lower R (strip R result)
           in list_ex (\<lambda>keyword. py_in keyword normalized) (set_iter R DUEL_SUCCESS_KEYWORD))"

text \<open>
  \<open>sorted(items, key=lambda item: -len(item[0]))\<close>: the longest keys first, keys of one
  length in the order of the dict (the sort is stable).
\<close>

definition longest_first :: "(ustr \<times> ustr) list \<Rightarrow> (ustr \<times> ustr) list" where
  "longest_first items = sort_key (\<lambda>item. - int (length (fst item))) items"

fun first_key_in :: "(ustr \<times> ustr) list \<Rightarrow> ustr \<Rightarrow> ustr option" where
  "first_key_in [] normalized = None"
| "first_key_in ((key, label) # items) normalized =
     (if py_in key normalized then Some label else first_key_in items normalized)"

fun first_key_in_either :: "(ustr \<times> ustr) list \<Rightarrow> ustr \<Rightarrow> ustr \<Rightarrow> ustr option" where
  "first_key_in_either [] normalized_position normalized_zone = None"
| "first_key_in_either ((key, label) # items) normalized_position normalized_zone =
     (if py_in key normalized_position \<or> py_in key normalized_zone then Some label
      else first_key_in_either items normalized_position normalized_zone)"

definition categorize_position :: "runtime \<Rightarrow> ustr option \<Rightarrow> ustr option \<Rightarrow> ustr option" where
  "categorize_position R player_position zone =
     first_key_in_either (longest_first POSITION_MAP)
       (normalize_label R player_position) (normalize_label R zone)"

text \<open>
  \<open>map_tercio\<close> walks \<open>TERCIO_MAP.items()\<close> in the order of the dict and returns at the
  first key found in the normalised text; \<open>map_zone_label\<close> walks \<open>ZONE_MAP\<close> sorted.
\<close>

definition map_tercio :: "runtime \<Rightarrow> ustr option \<Rightarrow> ustr option" where
  "map_tercio R raw = first_key_in TERCIO_MAP (normalize_label R raw)"

definition map_zone_label :: "runtime \<Rightarrow> ustr option \<Rightarrow> ustr option" where
  "map_zone_label R zone = first_key_in (longest_first ZONE_MAP) (normalize_label R zone)"

text \<open>
  The longest-first strategy of \<open>map_zone_label\<close> and \<open>categorize_position\<close>, applied to
  \<open>TERCIO_MAP\<close>: the mapper of thirds as the specification describes it.
\<close>

definition map_tercio_longest_first :: "runtime \<Rightarrow> ustr option \<Rightarrow> ustr option" where
  "map_tercio_longest_first R raw = first_key_in (longest_first TERCIO_MAP) (normalize_label R raw)"

section \<open>The roster of \<open>football/services.py\<close>\<close>

text \<open>
  \<open>normalize_player_name\<close> is Django's \<open>slugify\<close> of the name: the NFKD form with every
  non-ASCII code point dropped, lowered, reduced to word characters, whitespace and
  hyphens, with each run of hyphens and whitespace replaced by one hyphen, and leading
  and trailing hyphens and underscores stripped.
\<close>

definition ascii_lower :: "nat \<Rightarrow> nat" where
  "ascii_lower c = (if 65 \<le> c \<and> c \<le> 90 then c + 32 else c)"

definition ascii_word :: "nat \<Rightarrow> bool" where
  "ascii_word c = ((48 \<le> c \<and> c \<le> 57) \<or> (65 \<le> c \<and> c \<le> 90) \<or> (97 \<le> c \<and> c \<le> 122) \<or> c = 95)"

definition ascii_space :: "nat \<Rightarrow> bool" where
  "ascii_space c = (c = 32 \<or> (9 \<le> c \<and> c \<le> 13) \<or> (28 \<le> c \<and> c \<le> 31))"

fun hyphenate :: "bool \<Rightarrow> ustr \<Rightarrow> ustr" where
  "hyphenate in_run [] = []"
| "hyphenate in_run (c # cs) =
     (if c = 45 \<or> ascii_space c then (if in_run then [] else [45]) @ hyphenate True cs
      else c # hyphenate False cs)"

definition strip_hyphens :: "ustr \<Rightarrow> ustr" where
  "strip_hyphens s =
     rev (dropWhile (\<lambda>c. c = 45 \<or> c = 95) (rev (dropWhile (\<lambda>c. c = 45 \<or> c = 95) s)))"

definition slugify :: "runtime \<Rightarrow> ustr \<Rightarrow> ustr" where
  "slugify R value =
     (let ascii = filter (\<lambda>c. c < 128) (nfkd R value);
          kept = filter (\<lambda>c. ascii_word c \<or> ascii_space c \<or> c = 45) (map ascii_lower ascii)
      in strip_hyphens (hyphenate False kept))"

definition normalize_player_name :: "runtime \<Rightarrow> ustr \<Rightarrow> ustr" where
  "normalize_player_name R value = slugify R value"

text \<open>
  One row of the roster table as \<open>load_player_roster_stats\<close> reads it (the text of the
  name cell, the position cell, and the numeric cells after \<open>_parse_int(...) or 0\<close>),
  and the dict entry built from it.
\<close>

record roster_entry =
  r_name :: ustr
  r_position :: ustr
  r_age :: int
  r_pc :: int
  r_pj :: int
  r_pt :: int
  r_minutes :: int
  r_goals :: int
  r_yellow_cards :: int
  r_red_cards :: int
  r_assists :: int

type_synonym roster = "(ustr \<times> roster_entry) list"

text \<open>
  The loop of \<open>load_player_roster_stats\<close> over the rows: a row without a name is
  skipped, every other row is stored under the normalised name with \<open>assists\<close> 0 (a
  later row of the same key replaces the entry and keeps its place in the dict).
\<close>

definition store_row :: "runtime \<Rightarrow> roster \<Rightarrow> roster_entry \<Rightarrow> roster" where
  "store_row R roster row =
     (if r_name row = [] then roster
      else AList.update (normalize_player_name R (r_name row)) (row\<lparr>r_assists := 0\<rparr>) roster)"

definition load_player_roster_stats :: "runtime \<Rightarrow> roster_entry list \<Rightarrow> roster" where
  "load_player_roster_stats R rows = foldl (store_row R) [] rows"

definition ALIAS_MAP :: "(ustr \<times> ustr) list" where
  "ALIAS_MAP =
     [(u ''antonio'', u ''antonio-gamez-paniagua''),
      (u ''andrew'', u ''andrew-brayce-gonzales-ticona''),
      (u ''andrews'', u ''andrew-brayce-gonzales-ticona''),
      (u ''andrew-brayce-gonzales-ticona'', u ''andrew-brayce-gonzales-ticona''),
      (u ''manu'', u ''manuel-torres-palenzuela''),
      (u ''lolo'', u ''manuel-fernandez-canete''),
      (u ''jaime'', u ''javier-gutierrez-palma''),
      (u ''javi'', u ''javier-gutierrez-palma''),
      (u ''martinez'', u ''antonio-martinez-campens''),
      (u ''nico'', u ''nicolas-villalba-alcaide''),
      (u ''nicolas'', u ''nicolas-villalba-alcaide''),
      (u ''nacho'', u ''ignacio-dorado-morales''),
      (u ''ivan'', u ''ivan-fernandez-reina''),
      (u ''yaco'', u ''yaco-uriel-campoamor''),
      (u ''acosta'', u ''jose-garcia-acosta''),
      (u ''francis'', u ''francisco-javier-ruiz-perez''),
      (u ''juanmi'', u ''juan-miguel-anaya-bustamante''),
      (u ''victor'', u ''victor-ruiz-postigo''),
      (u ''antonio-ruiz'', u ''antonio-vilches'')]"

definition canonical_roster_key :: "runtime \<Rightarrow> ustr \<Rightarrow> ustr" where
  "canonical_roster_key R player_name =
     (let normalized = normalize_player_name R player_name
      in case map_of ALIAS_MAP normalized of None \<Rightarrow> normalized | Some target \<Rightarrow> target)"

text \<open>
  \<open>find_roster_entry\<close>: the entry under the canonical key if there is one (an entry is
  a non-empty dict, hence true); otherwise the first entry, in the order of the
  roster, whose lowered name contains the lowered and stripped query or is contained
  in it; \<open>None\<close> for an empty query or no such entry.
\<close>

definition name_matches :: "runtime \<Rightarrow> ustr \<Rightarrow> roster_entry \<Rightarrow> bool" where
  "name_matches R target entry =
     (let entry_name = lower R (r_name entry)
      in py_in target entry_name \<or> py_in entry_name target)"

definition find_roster_entry :: "runtime \<Rightarrow> ustr \<Rightarrow> roster \<Rightarrow> roster_entry option" where
  "find_roster_entry R player_name roster =
     (let key = canonical_roster_key R player_name
      in case (if key \<noteq> [] then map_of roster key else None) of
           Some entry \<Rightarrow> Some entry
         | None \<Rightarrow>
             let target = strip R (lower R player_name)
             in if target = [] then None
                else find (name_matches R target) (map snd roster))"

section \<open>The rows read from the database\<close>

text \<open>
  The models of \<open>football/models.py\<close>, with the fields \<open>compute_player_dashboard\<close>
  reads. A \<open>PositiveSmallIntegerField\<close> is a natural number, a nullable field an
  option, a foreign key followed by \<open>select_related\<close> the row it points to.
\<close>

record team =
  team_id :: nat
  team_name :: ustr

record player =
  p_id :: nat
  p_team :: nat
  p_name :: ustr
  p_number :: "nat option"
  p_position :: ustr

record date =
  year :: nat
  month :: nat
  day :: nat

record match =
  m_id :: nat
  m_round :: ustr
  m_date :: "date option"
  m_home_team :: "team option"
  m_away_team :: "team option"

record event =
  e_player :: "player option"
  e_match :: "match option"
  e_minute :: "nat option"
  e_event_type :: ustr
  e_result :: ustr
  e_zone :: ustr
  e_tercio :: ustr
  e_observation :: ustr
  e_system :: ustr

text \<open>\<open>date.isoformat()\<close>: year, month and day in four, two and two digits.\<close>

definition digits2 :: "nat \<Rightarrow> ustr" where
  "digits2 n = [48 + n div 10 mod 10, 48 + n mod 10]"

definition isoformat :: "date \<Rightarrow> ustr" where
  "isoformat d =
     digits2 (year d div 100) @ digits2 (year d) @ [45] @ digits2 (month d) @ [45] @ digits2 (day d)"

section \<open>The per-player statistics\<close>

record match_entry =
  me_match_id :: nat
  me_round :: ustr
  me_date :: "ustr option"
  me_home :: bool
  me_opponent :: ustr
  me_actions :: int
  me_successes :: int
  me_success_rate :: "int option"

record stats =
  player_id :: nat
  name :: ustr
  number :: "nat option"
  position :: "ustr option"
  total_actions :: int
  successes :: int
  pc :: int
  pj :: int
  pt :: int
  minutes :: int
  goals :: int
  yellow_cards :: int
  red_cards :: int
  assists :: int
  matches :: "(nat \<times> match_entry) list"
  zone_counts :: "(ustr \<times> int) list"
  position_counts :: "(ustr \<times> int) list"
  tercio_counts :: "(ustr \<times> int) list"
  tercio_totals :: "(ustr \<times> int) list"
  duels_total :: int
  duels_won :: int
  shot_attempts :: int
  shots_on_target :: int
  pass_attempts :: int
  passes_completed :: int
  age :: "int option"
  has_events :: bool

record timeline =
  entry :: "nat option"
  exit :: "nat option"
  has_event :: bool

text \<open>
  The default of \<open>player_stats.setdefault\<close> in the loop over the events: the baseline
  of the roster entry found for the player's name, or zeros.
\<close>

definition new_stats :: "player \<Rightarrow> roster_entry option \<Rightarrow> stats" where
  "new_stats player roster_entry =
     \<lparr> player_id = p_id player,
       name = p_name player,
       number = p_number player,
       position = Some (if p_position player \<noteq> [] then p_position player
                        else (case roster_entry of Some r \<Rightarrow> r_position r | None \<Rightarrow> [])),
       total_actions = 0,
       successes = 0,
       pc = (case roster_entry of Some r \<Rightarrow> r_pc r | None \<Rightarrow> 0),
       pj = (case roster_entry of Some r \<Rightarrow> r_pj r | None \<Rightarrow> 0),
       pt = (case roster_entry of Some r \<Rightarrow> r_pt r | None \<Rightarrow> 0),
       minutes = (case roster_entry of Some r \<Rightarrow> r_minutes r | None \<Rightarrow> 0),
       goals = (case roster_entry of Some r \<Rightarrow> r_goals r | None \<Rightarrow> 0),
       yellow_cards = (case roster_entry of Some r \<Rightarrow> r_yellow_cards r | None \<Rightarrow> 0),
       red_cards = (case roster_entry of Some r \<Rightarrow> r_red_cards r | None \<Rightarrow> 0),
       assists = (case roster_entry of Some r \<Rightarrow> r_assists r | None \<Rightarrow> 0),
       matches = [],
       zone_counts = map (\<lambda>key. (key, 0)) FIELD_ZONE_KEYS,
       position_counts = map (\<lambda>key. (key, 0)) FIELD_ZONE_KEYS,
       tercio_counts = map (\<lambda>label. (label, 0)) STANDARD_TERCIO_LABELS,
       tercio_totals = map (\<lambda>label. (label, 0)) STANDARD_TERCIO_LABELS,
       duels_total = 0,
       duels_won = 0,
       shot_attempts = 0,
       shots_on_target = 0,
       pass_attempts = 0,
       passes_completed = 0,
       age = (case roster_entry of Some r \<Rightarrow> Some (r_age r) | None \<Rightarrow> None),
       has_events = False \<rparr>"

text \<open>\<open>d[key] += 1\<close> on a dict of counts raises \<open>KeyError\<close> when the key is missing.\<close>

definition dict_incr :: "ustr \<Rightarrow> (ustr \<times> int) list \<Rightarrow> error + (ustr \<times> int) list" where
  "dict_incr key d =
     (case map_of d key of
        None \<Rightarrow> Inl (KeyError key)
      | Some count \<Rightarrow> Inr (AList.update key (count + 1) d))"

subsection \<open>The loop over the confirmed events\<close>

text \<open>Lines 1394 to 1409: the counters of actions, goals, assists, cards and duels.\<close>

definition count_actions :: "runtime \<Rightarrow> event \<Rightarrow> stats \<Rightarrow> stats" where
  "count_actions R event stats =
     (let stats = stats\<lparr>has_events := True\<rparr>;
          stats = stats\<lparr>total_actions := total_actions stats + 1\<rparr>;
          stats = (if result_is_success R (e_result event)
                   then stats\<lparr>successes := successes stats + 1\<rparr> else stats);
          stats = (if is_goal_event R (Some (e_event_type event)) (Some (e_result event))
                        (Some (e_observation event))
                   then stats\<lparr>goals := goals stats + 1\<rparr> else stats);
          stats = (if is_assist_event R (Some (e_event_type event)) (Some (e_result event))
                        (Some (e_observation event))
                   then stats\<lparr>assists := assists stats + 1\<rparr> else stats);
          stats = (if is_yellow_card_event R (Some (e_event_type event)) (Some (e_result event))
                        (Some (e_zone event))
                   then stats\<lparr>yellow_cards := yellow_cards stats + 1\<rparr> else stats);
          stats = (if is_red_card_event R (Some (e_event_type event)) (Some (e_result event))
                        (Some (e_zone event))
                   then stats\<lparr>red_cards := red_cards stats + 1\<rparr> else stats)
      in if is_duel_event R (Some (e_event_type event)) (Some (e_observation event))
         then (let stats = stats\<lparr>duels_total := duels_total stats + 1\<rparr>
               in if duel_result_is_success R (e_result event)
                  then stats\<lparr>duels_won := duels_won stats + 1\<rparr> else stats)
         else stats)"

text \<open>Lines 1410 to 1422: the tallies by zone, third and position.\<close>

definition count_zone :: "runtime \<Rightarrow> event \<Rightarrow> stats \<Rightarrow> error + stats" where
  "count_zone R event stats =
     (let zone = strip R (e_zone event)
      in case map_zone_label R (Some zone) of
           None \<Rightarrow> Inr stats
         | Some zone_label \<Rightarrow>
             (case dict_incr zone_label (zone_counts stats) of
                Inl err \<Rightarrow> Inl err
              | Inr counts \<Rightarrow> Inr (stats\<lparr>zone_counts := counts\<rparr>)))"

definition count_tercio :: "runtime \<Rightarrow> event \<Rightarrow> stats \<Rightarrow> error + stats" where
  "count_tercio R event stats =
     (let tercio = strip R (e_tercio event)
      in if tercio = [] then Inr stats
         else case map_tercio R (Some tercio) of
                None \<Rightarrow> Inr stats
              | Some mapped \<Rightarrow>
                  (case dict_incr mapped (tercio_counts stats) of
                     Inl err \<Rightarrow> Inl err
                   | Inr counts \<Rightarrow>
                       (case dict_incr mapped (tercio_totals stats) of
                          Inl err \<Rightarrow> Inl err
                        | Inr totals \<Rightarrow>
                            Inr (stats\<lparr>tercio_counts := counts, tercio_totals := totals\<rparr>))))"

definition count_position :: "runtime \<Rightarrow> player \<Rightarrow> event \<Rightarrow> stats \<Rightarrow> error + stats" where
  "count_position R player event stats =
     (case categorize_position R (Some (p_position player)) (Some (e_zone event)) of
        None \<Rightarrow> Inr stats
      | Some position_label \<Rightarrow>
          (case dict_incr position_label (position_counts stats) of
             Inl err \<Rightarrow> Inl err
           | Inr counts \<Rightarrow> Inr (stats\<lparr>position_counts := counts\<rparr>)))"

text \<open>Lines 1423 to 1430: shots and passes.\<close>

definition count_shots_passes :: "runtime \<Rightarrow> event \<Rightarrow> stats \<Rightarrow> stats" where
  "count_shots_passes R event stats =
     (let stats =
            (if contains_keyword R (Some (e_event_type event)) SHOT_KEYWORDS
                \<or> contains_keyword R (Some (e_observation event)) SHOT_KEYWORDS
             then (let stats = stats\<lparr>shot_attempts := shot_attempts stats + 1\<rparr>
                   in if result_is_success R (e_result event)
                      then stats\<lparr>shots_on_target := shots_on_target stats + 1\<rparr> else stats)
             else stats)
      in if contains_keyword R (Some (e_event_type event)) PASS_KEYWORDS
            \<or> contains_keyword R (Some (e_observation event)) PASS_KEYWORDS
         then (let stats = stats\<lparr>pass_attempts := pass_attempts stats + 1\<rparr>
               in if result_is_success R (e_result event)
                  then stats\<lparr>passes_completed := passes_completed stats + 1\<rparr> else stats)
         else stats)"

text \<open>
  Lines 1431 to 1457: the entry of the match in \<open>stats['matches']\<close>. Two model
  instances are equal when they have the same primary key.
\<close>

definition is_team :: "team \<Rightarrow> team option \<Rightarrow> bool" where
  "is_team primary_team t = (case t of None \<Rightarrow> False | Some t' \<Rightarrow> team_id t' = team_id primary_team)"

definition new_match_entry :: "team \<Rightarrow> match \<Rightarrow> match_entry" where
  "new_match_entry primary_team match =
     \<lparr> me_match_id = m_id match,
       me_round = (if m_round match \<noteq> [] then m_round match else u ''Partido sin jornada''),
       me_date = (case m_date match of Some d \<Rightarrow> Some (isoformat d) | None \<Rightarrow> None),
       me_home = is_team primary_team (m_home_team match),
       me_opponent =
         (case (is_team primary_team (m_home_team match), m_away_team match) of
            (True, Some away) \<Rightarrow> team_name away
          | _ \<Rightarrow>
              (case (is_team primary_team (m_away_team match), m_home_team match) of
                 (True, Some home) \<Rightarrow> team_name home
               | _ \<Rightarrow> u ''Rival desconocido'')),
       me_actions = 0,
       me_successes = 0,
       me_success_rate = None \<rparr>"

definition match_success_rate :: "runtime \<Rightarrow> match_entry \<Rightarrow> error + int" where
  "match_success_rate R match_entry =
     (if me_actions match_entry \<noteq> 0
      then (case py_truediv R (me_successes match_entry) (me_actions match_entry) of
              Inl err \<Rightarrow> Inl err
            | Inr q \<Rightarrow> Inr (round_half_even (py_times100 R q)))
      else Inr 0)"

definition count_match :: "runtime \<Rightarrow> team \<Rightarrow> event \<Rightarrow> stats \<Rightarrow> error + stats" where
  "count_match R primary_team event stats =
     (case e_match event of
        None \<Rightarrow> Inr stats
      | Some match \<Rightarrow>
          let match_key = m_id match;
              match_entry = (case map_of (matches stats) match_key of
                               Some existing \<Rightarrow> existing
                             | None \<Rightarrow> new_match_entry primary_team match);
              match_entry = match_entry\<lparr>me_actions := me_actions match_entry + 1\<rparr>;
              match_entry = (if result_is_success R (e_result event)
                             then match_entry\<lparr>me_successes := me_successes match_entry + 1\<rparr>
                             else match_entry)
          in case match_success_rate R match_entry of
               Inl err \<Rightarrow> Inl err
             | Inr rate \<Rightarrow>
                 Inr (stats\<lparr>matches :=
                        AList.update match_key (match_entry\<lparr>me_success_rate := Some rate\<rparr>)
                          (matches stats)\<rparr>))"

text \<open>The body of the loop for one event of a player, in the order of the source.\<close>

definition count_event :: "runtime \<Rightarrow> team \<Rightarrow> player \<Rightarrow> event \<Rightarrow> stats \<Rightarrow> error + stats" where
  "count_event R primary_team player event stats =
     (case count_zone R event (count_actions R event stats) of
        Inl err \<Rightarrow> Inl err
      | Inr stats \<Rightarrow>
          (case count_tercio R event stats of
             Inl err \<Rightarrow> Inl err
           | Inr stats \<Rightarrow>
               (case count_position R player event stats of
                  Inl err \<Rightarrow> Inl err
                | Inr stats \<Rightarrow> count_match R primary_team event (count_shots_passes R event stats))))"

type_synonym player_stats = "(nat \<times> stats) list"

definition event_step :: "runtime \<Rightarrow> team \<Rightarrow> roster \<Rightarrow> player_stats \<Rightarrow> event \<Rightarrow> error + player_stats" where
  "event_step R primary_team roster_cache player_stats event =
     (case e_player event of
        None \<Rightarrow> Inr player_stats
      | Some player \<Rightarrow>
          let roster_entry = find_roster_entry R (p_name player) roster_cache;
              stats = (case map_of player_stats (p_id player) of
                         Some existing \<Rightarrow> existing
                       | None \<Rightarrow> new_stats player roster_entry)
          in case count_event R primary_team player event stats of
               Inl err \<Rightarrow> Inl err
             | Inr stats \<Rightarrow> Inr (AList.update (p_id player) stats player_stats))"

fun fold_events :: "runtime \<Rightarrow> team \<Rightarrow> roster \<Rightarrow> player_stats \<Rightarrow> event list \<Rightarrow> error + player_stats" where
  "fold_events R primary_team roster_cache player_stats [] = Inr player_stats"
| "fold_events R primary_team roster_cache player_stats (event # events) =
     (case event_step R primary_team roster_cache player_stats event of
        Inl err \<Rightarrow> Inl err
      | Inr player_stats \<Rightarrow> fold_events R primary_team roster_cache player_stats events)"

subsection \<open>The loop over the live events\<close>

type_synonym timelines = "(nat \<times> (nat \<times> timeline) list) list"

definition record_timeline :: "runtime \<Rightarrow> event \<Rightarrow> timeline \<Rightarrow> timeline" where
  "record_timeline R event timeline =
     (let minute_or_0 = (case e_minute event of None \<Rightarrow> 0 | Some minute \<Rightarrow> minute);
          timeline = timeline\<lparr>has_event := True\<rparr>;
          timeline = (if is_substitution_entry R (Some (e_event_type event)) (Some (e_result event))
                           (Some (e_zone event))
                      then timeline\<lparr>entry := min_or_none (entry timeline) (Some minute_or_0)\<rparr>
                      else timeline)
      in if is_substitution_exit R (Some (e_event_type event)) (Some (e_result event))
              (Some (e_zone event))
         then timeline\<lparr>exit := min_or_none (exit timeline) (Some minute_or_0)\<rparr>
         else timeline)"

definition get_or_0 :: "(nat \<times> nat) list \<Rightarrow> nat \<Rightarrow> nat" where
  "get_or_0 d key = (case map_of d key of None \<Rightarrow> 0 | Some v \<Rightarrow> v)"

definition live_step ::
  "runtime \<Rightarrow> (nat \<times> nat) list \<times> timelines \<Rightarrow> event \<Rightarrow> (nat \<times> nat) list \<times> timelines" where
  "live_step R state event =
     (case e_player event of
        None \<Rightarrow> state
      | Some player \<Rightarrow>
          let match_end_minutes =
                (case (e_match event, e_minute event) of
                   (Some match, Some minute) \<Rightarrow>
                     AList.update (m_id match) (max (get_or_0 (fst state) (m_id match)) minute) (fst state)
                 | _ \<Rightarrow> fst state);
              player_match_timeline =
                (case e_match event of
                   None \<Rightarrow> snd state
                 | Some match \<Rightarrow>
                     let of_player = (case map_of (snd state) (p_id player) of
                                        None \<Rightarrow> [] | Some existing \<Rightarrow> existing);
                         timeline = (case map_of of_player (m_id match) of
                                       None \<Rightarrow> \<lparr>entry = None, exit = None, has_event = False\<rparr>
                                     | Some existing \<Rightarrow> existing)
                     in AList.update (p_id player)
                          (AList.update (m_id match) (record_timeline R event timeline) of_player)
                          (snd state))
          in (match_end_minutes, player_match_timeline))"

subsection \<open>The loop over the timelines\<close>

text \<open>
  Lines 1480 to 1490: the entry and exit minute derived for one match. The match end
  comes from \<open>match_end_minutes.get(match_id, 0)\<close> and is never \<open>None\<close>, so the second
  default of the exit minute is never taken.
\<close>

definition derive_minutes :: "nat \<Rightarrow> timeline \<Rightarrow> int \<times> int" where
  "derive_minutes match_end timeline =
     (let entry_minute = (case entry timeline of None \<Rightarrow> 0 | Some minute \<Rightarrow> int minute);
          exit_minute = (case exit timeline of None \<Rightarrow> Some (int match_end) | Some minute \<Rightarrow> Some (int minute));
          exit_minute = (case exit_minute of None \<Rightarrow> entry_minute | Some minute \<Rightarrow> minute);
          exit_minute = (if exit_minute < entry_minute then entry_minute else exit_minute)
      in (entry_minute, exit_minute))"

definition apply_timeline :: "nat \<Rightarrow> timeline \<Rightarrow> stats \<Rightarrow> stats" where
  "apply_timeline match_end timeline stats =
     (let (entry_minute, exit_minute) = derive_minutes match_end timeline;
          stats = stats\<lparr>minutes := minutes stats + max 0 (exit_minute - entry_minute)\<rparr>;
          stats = stats\<lparr>pj := pj stats + (if has_event timeline then 1 else 0)\<rparr>
      in if entry_minute = 0 then stats\<lparr>pt := pt stats + 1\<rparr> else stats)"

text \<open>
  The inner loop over the matches of one player, and the update of \<open>pc\<close> after it; the
  outer loop skips a player without entry in \<open>player_stats\<close>.
\<close>

definition apply_timelines :: "(nat \<times> nat) list \<Rightarrow> (nat \<times> timeline) list \<Rightarrow> stats \<Rightarrow> stats" where
  "apply_timelines match_end_minutes of_player stats =
     (let stats = foldl (\<lambda>stats (match_id, timeline).
                          apply_timeline (get_or_0 match_end_minutes match_id) timeline stats)
                   stats of_player
      in stats\<lparr>pc := max (pc stats) (pj stats)\<rparr>)"

definition apply_player_timelines ::
  "(nat \<times> nat) list \<Rightarrow> player_stats \<Rightarrow> nat \<times> (nat \<times> timeline) list \<Rightarrow> player_stats" where
  "apply_player_timelines match_end_minutes player_stats item =
     (case map_of player_stats (fst item) of
        None \<Rightarrow> player_stats
      | Some stats \<Rightarrow>
          AList.update (fst item) (apply_timelines match_end_minutes (snd item) stats) player_stats)"

subsection \<open>The players of the team without events\<close>

definition roster_only_stats :: "runtime \<Rightarrow> roster \<Rightarrow> player \<Rightarrow> stats" where
  "roster_only_stats R roster_cache player =
     (let normalized = normalize_player_name R (p_name player);
          roster_entry = map_of roster_cache normalized
      in (new_stats player roster_entry)
           \<lparr> position := (if p_position player \<noteq> [] then Some (p_position player)
                           else (case roster_entry of Some r \<Rightarrow> Some (r_position r) | None \<Rightarrow> None)) \<rparr>)"

definition add_roster_player :: "runtime \<Rightarrow> roster \<Rightarrow> player_stats \<Rightarrow> player \<Rightarrow> player_stats" where
  "add_roster_player R roster_cache player_stats player =
     (case map_of player_stats (p_id player) of
        Some existing \<Rightarrow> player_stats
      | None \<Rightarrow> AList.update (p_id player) (roster_only_stats R roster_cache player) player_stats)"

subsection \<open>The merged output\<close>

text \<open>
  The dict \<open>merged\<close> of one player: the entries of \<open>stats\<close>, with \<open>matches\<close> and \<open>age\<close>
  overridden, and the derived entries.
\<close>

record merged =
  out_stats :: stats
  out_matches :: "match_entry list"
  out_match_count :: nat
  out_age :: "int option"
  out_success_rate :: rat
  out_duel_summary :: "int \<times> int"
  out_duel_rate :: rat
  out_zone_heatmap :: "(ustr \<times> int) list"
  out_tercio_summary :: "(ustr \<times> int \<times> rat) list"
  out_tercio_heatmap :: "(ustr \<times> int) list"
  out_position_breakdown :: "(ustr \<times> int) list"
  out_dominant_position :: ustr
  out_field_zones :: "(field_zone \<times> int) list"
  out_shots :: "int \<times> int \<times> rat"
  out_passes :: "int \<times> int \<times> rat"

text \<open>
  The key of the sort of the matches: whether the round has no number, the number of
  the round (9999 when there is none, or when it is 0), and the date (the empty string
  when there is none). Tuples and strings compare lexicographically.
\<close>

definition match_sort_key :: "runtime \<Rightarrow> match_entry \<Rightarrow> bool \<times> int \<times> ustr" where
  "match_sort_key R match_entry =
     (extract_round_number R (me_round match_entry) = None,
      (case extract_round_number R (me_round match_entry) of
         None \<Rightarrow> 9999
       | Some n \<Rightarrow> if n = 0 then 9999 else n),
      (case me_date match_entry of None \<Rightarrow> [] | Some d \<Rightarrow> d))"

definition sorted_matches :: "runtime \<Rightarrow> stats \<Rightarrow> match_entry list" where
  "sorted_matches R stats = sort_key (match_sort_key R) (map snd (matches stats))"

text \<open>\<open>round((part / whole) * 100, 1) if whole else 0\<close>.\<close>

definition percentage :: "runtime \<Rightarrow> int \<Rightarrow> int \<Rightarrow> error + rat" where
  "percentage R part whole =
     (if whole \<noteq> 0
      then (case py_truediv R part whole of
              Inl err \<Rightarrow> Inl err
            | Inr q \<Rightarrow> Inr (py_round1 R (py_times100 R q)))
      else Inr 0)"

text \<open>\<open>sorted(items, key=count, reverse=True)\<close>: a stable sort by decreasing count.\<close>

definition by_count_desc :: "('a \<times> int) list \<Rightarrow> ('a \<times> int) list" where
  "by_count_desc items = sort_key (\<lambda>item. - snd item) items"

definition get_count :: "(ustr \<times> int) list \<Rightarrow> ustr \<Rightarrow> int" where
  "get_count d key = (case map_of d key of None \<Rightarrow> 0 | Some count \<Rightarrow> count)"

fun tercio_summary :: "runtime \<Rightarrow> (ustr \<times> int) list \<Rightarrow> int \<Rightarrow> ustr list \<Rightarrow> error + (ustr \<times> int \<times> rat) list" where
  "tercio_summary R totals total_tercios [] = Inr []"
| "tercio_summary R totals total_tercios (tercio_label # labels) =
     (case percentage R (get_count totals tercio_label) total_tercios of
        Inl err \<Rightarrow> Inl err
      | Inr pct \<Rightarrow>
          (case tercio_summary R totals total_tercios labels of
             Inl err \<Rightarrow> Inl err
           | Inr rest \<Rightarrow> Inr ((tercio_label, get_count totals tercio_label, pct) # rest)))"

text \<open>
  The entry \<open>dominant_position\<close> reads, when the list of positions is empty, the
  position of \<open>player\<close>, the variable left over from the loops before; \<open>None\<close> stands for
  a variable that is unbound or \<open>None\<close> there.
\<close>

definition dominant_position :: "player option \<Rightarrow> (ustr \<times> int) list \<Rightarrow> error + ustr" where
  "dominant_position leftover position_list =
     (case position_list of
        (label, count) # rest \<Rightarrow> Inr label
      | [] \<Rightarrow> (case leftover of None \<Rightarrow> Inl AttributeError | Some player \<Rightarrow> Inr (p_position player)))"

definition merge_stats :: "runtime \<Rightarrow> roster \<Rightarrow> player option \<Rightarrow> stats \<Rightarrow> error + merged" where
  "merge_stats R roster_cache leftover stats =
     (let matches_list = sorted_matches R stats;
          roster_entry = find_roster_entry R (name stats) roster_cache;
          total_tercios = sum_list (map snd (tercio_totals stats));
          position_list = by_count_desc (position_counts stats);
          field_zones = map (\<lambda>zone. (zone, get_count (zone_counts stats) (fz_key zone))) FIELD_ZONES
      in case percentage R (successes stats) (total_actions stats) of
           Inl err \<Rightarrow> Inl err
         | Inr success_rate \<Rightarrow>
       (case percentage R (duels_won stats) (duels_total stats) of
           Inl err \<Rightarrow> Inl err
         | Inr duel_rate \<Rightarrow>
       (case tercio_summary R (tercio_totals stats) total_tercios
               [u ''Ataque'', u ''Construcci'' @ [243] @ u ''n'', u ''Defensa''] of
           Inl err \<Rightarrow> Inl err
         | Inr summary \<Rightarrow>
       (case dominant_position leftover position_list of
           Inl err \<Rightarrow> Inl err
         | Inr dominant \<Rightarrow>
       (case percentage R (shots_on_target stats) (shot_attempts stats) of
           Inl err \<Rightarrow> Inl err
         | Inr shot_accuracy \<Rightarrow>
       (case percentage R (passes_completed stats) (pass_attempts stats) of
           Inl err \<Rightarrow> Inl err
         | Inr pass_accuracy \<Rightarrow>
             Inr \<lparr> out_stats = stats,
                   out_matches = matches_list,
                   out_match_count = length matches_list,
                   out_age = (case age stats of
                                Some a \<Rightarrow> if a \<noteq> 0 then Some a
                                          else (case roster_entry of Some r \<Rightarrow> Some (r_age r) | None \<Rightarrow> None)
                              | None \<Rightarrow> (case roster_entry of Some r \<Rightarrow> Some (r_age r) | None \<Rightarrow> None)),
                   out_success_rate = success_rate,
                   out_duel_summary = (duels_won stats, duels_total stats),
                   out_duel_rate = duel_rate,
                   out_zone_heatmap =
                     take 5 (by_count_desc (filter (\<lambda>item. 0 < snd item) (zone_counts stats))),
                   out_tercio_summary = summary,
                   out_tercio_heatmap = take 5 (by_count_desc (tercio_counts stats)),
                   out_position_breakdown = position_list,
                   out_dominant_position = dominant,
                   out_field_zones = field_zones,
                   out_shots = (shot_attempts stats, shots_on_target stats, shot_accuracy),
                   out_passes = (pass_attempts stats, passes_completed stats, pass_accuracy) \<rparr>))))))"

fun merge_all :: "runtime \<Rightarrow> roster \<Rightarrow> player option \<Rightarrow> stats list \<Rightarrow> error + merged list" where
  "merge_all R roster_cache leftover [] = Inr []"
| "merge_all R roster_cache leftover (stats # rest) =
     (case merge_stats R roster_cache leftover stats of
        Inl err \<Rightarrow> Inl err
      | Inr merged \<Rightarrow>
          (case merge_all R roster_cache leftover rest of
             Inl err \<Rightarrow> Inl err
           | Inr result \<Rightarrow> Inr (merged # result)))"

subsection \<open>\<open>compute_player_dashboard\<close>\<close>

text \<open>
  \<open>MatchEvent_objects\<close> and \<open>Player_objects\<close> are the tables, the events in the order
  that \<open>order_by('player__name', 'match__date')\<close> gives them; the two querysets of the
  function filter that list. \<open>roster_cache\<close> is the value of \<open>get_roster_stats_cache()\<close>.
\<close>

definition on_team :: "team \<Rightarrow> event \<Rightarrow> bool" where
  "on_team primary_team event =
     (case e_player event of None \<Rightarrow> False | Some player \<Rightarrow> p_team player = team_id primary_team)"

definition confirmed_events :: "team \<Rightarrow> event list \<Rightarrow> event list" where
  "confirmed_events primary_team MatchEvent_objects =
     filter (\<lambda>event. e_system event \<noteq> u ''touch-field'' \<and> on_team primary_team event) MatchEvent_objects"

definition live_events :: "team \<Rightarrow> event list \<Rightarrow> event list" where
  "live_events primary_team MatchEvent_objects =
     filter (\<lambda>event. e_system event = u ''touch-field-final'' \<and> on_team primary_team event) MatchEvent_objects"

definition roster_players :: "team \<Rightarrow> player list \<Rightarrow> player list" where
  "roster_players primary_team Player_objects =
     filter (\<lambda>player. p_team player = team_id primary_team) Player_objects"

definition leftover_player :: "event list \<Rightarrow> event list \<Rightarrow> player list \<Rightarrow> player option" where
  "leftover_player events live players =
     (if players \<noteq> [] then Some (last players)
      else if live \<noteq> [] then e_player (last live)
      else if events \<noteq> [] then e_player (last events)
      else None)"

text \<open>The statistics after the loops over the events and the timelines.\<close>

definition reconstructed_stats ::
  "runtime \<Rightarrow> team \<Rightarrow> event list \<Rightarrow> roster \<Rightarrow> error + player_stats" where
  "reconstructed_stats R primary_team MatchEvent_objects roster_cache =
     (case fold_events R primary_team roster_cache []
             (confirmed_events primary_team MatchEvent_objects) of
        Inl err \<Rightarrow> Inl err
      | Inr player_stats \<Rightarrow>
          let state = foldl (live_step R) ([], []) (live_events primary_team MatchEvent_objects)
          in Inr (foldl (apply_player_timelines (fst state)) player_stats (snd state)))"

definition compute_player_dashboard ::
  "runtime \<Rightarrow> team \<Rightarrow> event list \<Rightarrow> player list \<Rightarrow> roster \<Rightarrow> error + merged list" where
  "compute_player_dashboard R primary_team MatchEvent_objects Player_objects roster_cache =
     (case reconstructed_stats R primary_team MatchEvent_objects roster_cache of
        Inl err \<Rightarrow> Inl err
      | Inr player_stats \<Rightarrow>
          let players = roster_players primary_team Player_objects;
              player_stats = foldl (add_roster_player R roster_cache) player_stats players;
              leftover = leftover_player (confirmed_events primary_team MatchEvent_objects)
                           (live_events primary_team MatchEvent_objects) players
          in case merge_all R roster_cache leftover (map snd player_stats) of
               Inl err \<Rightarrow> Inl err
             | Inr result \<Rightarrow> Inr (sort_key (\<lambda>merged. - total_actions (out_stats merged)) result))"

section \<open>Notions used in the statements\<close>

text \<open>
  Whether an event is an event of the player \<open>pid\<close> in the match \<open>mid\<close>, and the
  timeline that \<open>player_match_timeline[pid][mid]\<close> holds, if any.
\<close>

definition concerns :: "nat \<Rightarrow> nat \<Rightarrow> event \<Rightarrow> bool" where
  "concerns pid mid event =
     (case e_player event of
        None \<Rightarrow> False
      | Some player \<Rightarrow>
          (case e_match event of
             None \<Rightarrow> False
           | Some match \<Rightarrow> p_id player = pid \<and> m_id match = mid))"

definition timeline_of :: "timelines \<Rightarrow> nat \<Rightarrow> nat \<Rightarrow> timeline option" where
  "timeline_of player_match_timeline pid mid =
     (case map_of player_match_timeline pid of
        None \<Rightarrow> None
      | Some of_player \<Rightarrow> map_of of_player mid)"

definition is_entry :: "runtime \<Rightarrow> event \<Rightarrow> bool" where
  "is_entry R event =
     is_substitution_entry R (Some (e_event_type event)) (Some (e_result event)) (Some (e_zone event))"

definition is_exit :: "runtime \<Rightarrow> event \<Rightarrow> bool" where
  "is_exit R event =
     is_substitution_exit R (Some (e_event_type event)) (Some (e_result event)) (Some (e_zone event))"

text \<open>The counters of successes never exceed the counters they are part of.\<close>

definition counters_ok :: "stats \<Rightarrow> bool" where
  "counters_ok stats =
     (0 \<le> successes stats \<and> successes stats \<le> total_actions stats
      \<and> 0 \<le> duels_won stats \<and> duels_won stats \<le> duels_total stats
      \<and> 0 \<le> shots_on_target stats \<and> shots_on_target stats \<le> shot_attempts stats
      \<and> 0 \<le> passes_completed stats \<and> passes_completed stats \<le> pass_attempts stats)"

text \<open>
  What the loop over the timelines may change in an entry of \<open>player_stats\<close>: the
  minutes and the counts of matches played, started and called up.
\<close>

definition timeline_frame :: "stats \<Rightarrow> stats \<Rightarrow> bool" where
  "timeline_frame stats stats' =
     (\<exists>m j t c. stats' = stats\<lparr>minutes := m, pj := j, pt := t, pc := c\<rparr>)"

text \<open>
  The shape of \<open>player_match_timeline\<close>: a dict of dicts has each key once, and every
  timeline stored has its flag set.
\<close>

definition timelines_ok :: "timelines \<Rightarrow> bool" where
  "timelines_ok player_match_timeline =
     (distinct (map fst player_match_timeline)
      \<and> list_all (\<lambda>item. distinct (map fst (snd item))
                          \<and> list_all (\<lambda>entry. has_event (snd entry)) (snd item))
            player_match_timeline)"

text \<open>The matches played that the roster gives for a player, 0 without roster entry.\<close>

definition baseline_pj :: "runtime \<Rightarrow> roster \<Rightarrow> player \<Rightarrow> int" where
  "baseline_pj R roster_cache player =
     (case find_roster_entry R (p_name player) roster_cache of None \<Rightarrow> 0 | Some r \<Rightarrow> r_pj r)"

text \<open>
  A runtime for texts that are ASCII throughout: no function above consults its
  Unicode database on such a text. Its sets are iterated in the order written and its
  floats are exact. It is the instance at which the closed theorems are evaluated.
\<close>

definition ascii_runtime :: runtime where
  "ascii_runtime =
     \<lparr> nfkd_ext = (\<lambda>run. run), isalnum_ext = (\<lambda>c. False), isspace_ext = (\<lambda>c. False),
       lower_ext = (\<lambda>seen c rest. [c]), isdecimal_ext = (\<lambda>c. False), digit_ext = (\<lambda>c. 0),
       str_hash = (\<lambda>s. 0), to_double = (\<lambda>x. x) \<rparr>"

text \<open>
  The same runtime with the entries of the Unicode character database for the
  accented letters of Spanish: each decomposes into its base letter and one combining
  mark (acute 769, tilde 771, diaeresis 776), is alphanumeric, and a capital is lowered
  by 32. The combining marks and every other code point beyond ASCII, such as the
  inverted marks of exclamation and question, are neither alphanumeric nor whitespace.
\<close>

definition decompose :: "nat \<Rightarrow> ustr" where
  "decompose c =
     (if c = 225 then [97, 769] else if c = 233 then [101, 769] else if c = 237 then [105, 769]
      else if c = 243 then [111, 769] else if c = 250 then [117, 769] else if c = 241 then [110, 771]
      else if c = 252 then [117, 776]
      else if c = 193 then [65, 769] else if c = 201 then [69, 769] else if c = 205 then [73, 769]
      else if c = 211 then [79, 769] else if c = 218 then [85, 769] else if c = 209 then [78, 771]
      else if c = 220 then [85, 776]
      else [c])"

definition spanish_letter :: "nat \<Rightarrow> bool" where
  "spanish_letter c = (c \<in> set [225, 233, 237, 243, 250, 241, 252, 193, 201, 205, 211, 218, 209, 220])"

definition spanish_runtime :: runtime where
  "spanish_runtime =
     ascii_runtime
       \<lparr> nfkd_ext := (\<lambda>run. concat (map decompose run)),
         isalnum_ext := spanish_letter,
         lower_ext := (\<lambda>seen c rest. [if c \<in> set [193, 201, 205, 211, 218, 209, 220] then c + 32 else c]) \<rparr>"

text \<open>
  The order of the matches that the sort key intends: the matches whose round has a
  number first, by that number, then the matches without number; within one round, by
  the ISO date (the empty string when there is none).
\<close>

definition round_date_key :: "runtime \<Rightarrow> match_entry \<Rightarrow> bool \<times> int \<times> ustr" where
  "round_date_key R match_entry =
     (extract_round_number R (me_round match_entry) = None,
      (case extract_round_number R (me_round match_entry) of None \<Rightarrow> 0 | Some n \<Rightarrow> n),
      (case me_date match_entry of None \<Rightarrow> [] | Some d \<Rightarrow> d))"

section \<open>Sample rows\<close>

text \<open>
  The rows at which the closed theorems are evaluated: the primary team and a rival,
  one player, and two matches of which the round 1 was played after the round 2.
\<close>

definition benagalbon :: team where
  "benagalbon = \<lparr>team_id = 1, team_name = u ''Benagalbon''\<rparr>"

definition rival :: team where
  "rival = \<lparr>team_id = 2, team_name = u ''Rival''\<rparr>"

definition ana :: player where
  "ana = \<lparr>p_id = 7, p_team = 1, p_name = u ''Ana'', p_number = Some 9, p_position = u ''Delantero''\<rparr>"

definition round2 :: match where
  "round2 = \<lparr>m_id = 3, m_round = u ''Jornada 2'', m_date = Some \<lparr>year = 2024, month = 1, day = 14\<rparr>,
              m_home_team = Some benagalbon, m_away_team = Some rival\<rparr>"

definition round1 :: match where
  "round1 = \<lparr>m_id = 4, m_round = u ''Jornada 1'', m_date = Some \<lparr>year = 2024, month = 2, day = 11\<rparr>,
              m_home_team = Some rival, m_away_team = Some benagalbon\<rparr>"

definition sample_event :: "match \<Rightarrow> nat option \<Rightarrow> string \<Rightarrow> string \<Rightarrow> string \<Rightarrow> event" where
  "sample_event match minute event_type result system =
     \<lparr>e_player = Some ana, e_match = Some match, e_minute = minute, e_event_type = u event_type,
      e_result = u result, e_zone = [], e_tercio = [], e_observation = [], e_system = u system\<rparr>"

text \<open>
  Two events of the sample player: an imported pass in round 2 and a shot recorded on
  the touch field in round 1, in the order of the dates of the matches. The summary of
  a merged entry lists the player and whether the player has events, the matches
  played, started and the minutes, the matches of the output with their rounds and dates, and
  the four rates.
\<close>

definition sample_events :: "event list" where
  "sample_events =
     [sample_event round2 (Some 10) ''Pase'' ''OK'' ''import'',
      sample_event round1 (Some 20) ''Tiro'' ''Fuera'' ''touch-field-final'']"

definition summary ::
  "merged \<Rightarrow> (nat \<times> bool) \<times> (int \<times> int \<times> int) \<times> (nat \<times> ustr \<times> ustr option) list \<times> rat \<times> rat
     \<times> (int \<times> int \<times> rat) \<times> (int \<times> int \<times> rat)" where
  "summary merged =
     ((player_id (out_stats merged), has_events (out_stats merged)),
      (pj (out_stats merged), pt (out_stats merged), minutes (out_stats merged)),
      map (\<lambda>match_entry. (me_match_id match_entry, me_round match_entry, me_date match_entry))
        (out_matches merged),
      out_success_rate merged, out_duel_rate merged, out_shots merged, out_passes merged)"

text \<open>A row of the roster table for the sample of the alias \<open>manu\<close>.\<close>

definition sample_row :: roster_entry where
  "sample_row =
     \<lparr>r_name = u ''Manuel Torres Palenzuela'', r_position = u ''Medio Centro'', r_age = 24,
      r_pc = 12, r_pj = 10, r_pt = 8, r_minutes = 720, r_goals = 2, r_yellow_cards = 3,
      r_red_cards = 0, r_assists = 0\<rparr>"

section \<open>The tables sorted once\<close>

text \<open>
  The sorted tables that \<open>map_zone_label\<close> and \<open>categorize_position\<close> walk, computed
  once; the code equations below let an evaluation start from them.
\<close>

lemma longest_first_ZONE_MAP:
  "longest_first ZONE_MAP =
     [(u ''defensa izquierda centro'', u ''Defensa Izquierda''),
      (u ''delantero izquierdo'', u ''Ataque Izquierda''),
      (u ''defensa izquierda'', u ''Defensa Izquierda''),
      (u ''lateral izquierdo'', u ''Defensa Izquierda''),
      (u ''extremo izquierdo'', u ''Ataque Izquierda''),
      (u ''delantero derecho'', u ''Ataque Derecha''),
      (u ''carril izquierdo'', u ''Defensa Izquierda''),
      (u ''central ofensivo'', u ''Medio Centro''),
      (u ''ataque izquierdo'', u ''Ataque Izquierda''),
      (u ''delantero centro'', u ''Ataque Centro''),
      (u ''costa izquierda'', u ''Defensa Izquierda''),
      (u ''defensa central'', u ''Defensa Centro''),
      (u ''defensa derecha'', u ''Defensa Derecha''),
      (u ''lateral derecho'', u ''Defensa Derecha''),
      (u ''medio izquierdo'', u ''Medio Izquierdo''),
      (u ''extremo derecho'', u ''Ataque Derecha''),
      (u ''carril derecho'', u ''Defensa Derecha''),
      (u ''ataque derecho'', u ''Ataque Derecha''),
      (u ''costa derecha'', u ''Defensa Derecha''),
      (u ''medio derecho'', u ''Medio Derecho''),
      (u ''ataque centro'', u ''Ataque Centro''),
      (u ''zona central'', u ''Defensa Centro''),
      (u ''medio centro'', u ''Medio Centro''),
      (u ''mediocentro'', u ''Medio Centro''),
      (u ''media punta'', u ''Ataque Centro''),
      (u ''delanztero'', u ''Ataque Centro''),
      (u ''delantero'', u ''Ataque Centro''),
      (u ''atacante'', u ''Ataque Centro''),
      (u ''central'', u ''Defensa Centro''),
      (u ''pivote'', u ''Medio Centro''),
      (u ''punta'', u ''Ataque Centro'')]"
  by code_simp

lemma longest_first_POSITION_MAP:
  "longest_first POSITION_MAP =
     [(u ''delantero izquierdo'', u ''Ataque Izquierda''),
      (u ''defensa izquierda'', u ''Defensa Izquierda''),
      (u ''lateral izquierdo'', u ''Defensa Izquierda''),
      (u ''extremo izquierdo'', u ''Ataque Izquierda''),
      (u ''delantero derecho'', u ''Ataque Derecha''),
      (u ''carril izquierdo'', u ''Defensa Izquierda''),
      (u ''ataque izquierdo'', u ''Ataque Izquierda''),
      (u ''delantero centro'', u ''Ataque Centro''),
      (u ''defensa central'', u ''Defensa Centro''),
      (u ''defensa derecha'', u ''Defensa Derecha''),
      (u ''lateral derecho'', u ''Defensa Derecha''),
      (u ''medio izquierdo'', u ''Medio Izquierdo''),
      (u ''extremo derecho'', u ''Ataque Derecha''),
      (u ''carril derecho'', u ''Defensa Derecha''),
      (u ''ataque derecho'', u ''Ataque Derecha''),
      (u ''medio derecho'', u ''Medio Derecho''),
      (u ''ataque centro'', u ''Ataque Centro''),
      (u ''medio centro'', u ''Medio Centro''),
      (u ''mediocentro'', u ''Medio Centro''),
      (u ''izquierda'', u ''Defensa Izquierda''),
      (u ''delantero'', u ''Ataque Centro''),
      (u ''atacante'', u ''Ataque Centro''),
      (u ''central'', u ''Defensa Centro''),
      (u ''derecha'', u ''Defensa Derecha''),
      (u ''pivote'', u ''Medio Centro''),
      (u ''punta'', u ''Ataque Centro'')]"
  by code_simp

lemma map_zone_label_code [code]:
  "map_zone_label R zone =
     first_key_in
     [(u ''defensa izquierda centro'', u ''Defensa Izquierda''),
      (u ''delantero izquierdo'', u ''Ataque Izquierda''),
      (u ''defensa izquierda'', u ''Defensa Izquierda''),
      (u ''lateral izquierdo'', u ''Defensa Izquierda''),
      (u ''extremo izquierdo'', u ''Ataque Izquierda''),
      (u ''delantero derecho'', u ''Ataque Derecha''),
      (u ''carril izquierdo'', u ''Defensa Izquierda''),
      (u ''central ofensivo'', u ''Medio Centro''),
      (u ''ataque izquierdo'', u ''Ataque Izquierda''),
      (u ''delantero centro'', u ''Ataque Centro''),
      (u ''costa izquierda'', u ''Defensa Izquierda''),
      (u ''defensa central'', u ''Defensa Centro''),
      (u ''defensa derecha'', u ''Defensa Derecha''),
      (u ''lateral derecho'', u ''Defensa Derecha''),
      (u ''medio izquierdo'', u ''Medio Izquierdo''),
      (u ''extremo derecho'', u ''Ataque Derecha''),
      (u ''carril derecho'', u ''Defensa Derecha''),
      (u ''ataque derecho'', u ''Ataque Derecha''),
      (u ''costa derecha'', u ''Defensa Derecha''),
      (u ''medio derecho'', u ''Medio Derecho''),
      (u ''ataque centro'', u ''Ataque Centro''),
      (u ''zona central'', u ''Defensa Centro''),
      (u ''medio centro'', u ''Medio Centro''),
      (u ''mediocentro'', u ''Medio Centro''),
      (u ''media punta'', u ''Ataque Centro''),
      (u ''delanztero'', u ''Ataque Centro''),
      (u ''delantero'', u ''Ataque Centro''),
      (u ''atacante'', u ''Ataque Centro''),
      (u ''central'', u ''Defensa Centro''),
      (u ''pivote'', u ''Medio Centro''),
      (u ''punta'', u ''Ataque Centro'')]
     (normalize_label R zone)"
  by (simp only: map_zone_label_def longest_first_ZONE_MAP)

lemma categorize_position_code [code]:
  "categorize_position R player_position zone =
     first_key_in_either
     [(u ''delantero izquierdo'', u ''Ataque Izquierda''),
      (u ''defensa izquierda'', u ''Defensa Izquierda''),
      (u ''lateral izquierdo'', u ''Defensa Izquierda''),
      (u ''extremo izquierdo'', u ''Ataque Izquierda''),
      (u ''delantero derecho'', u ''Ataque Derecha''),
      (u ''carril izquierdo'', u ''Defensa Izquierda''),
      (u ''ataque izquierdo'', u ''Ataque Izquierda''),
      (u ''delantero centro'', u ''Ataque Centro''),
      (u ''defensa central'', u ''Defensa Centro''),
      (u ''defensa derecha'', u ''Defensa Derecha''),
      (u ''lateral derecho'', u ''Defensa Derecha''),
      (u ''medio izquierdo'', u ''Medio Izquierdo''),
      (u ''extremo derecho'', u ''Ataque Derecha''),
      (u ''carril derecho'', u ''Defensa Derecha''),
      (u ''ataque derecho'', u ''Ataque Derecha''),
      (u ''medio derecho'', u ''Medio Derecho''),
      (u ''ataque centro'', u ''Ataque Centro''),
      (u ''medio centro'', u ''Medio Centro''),
      (u ''mediocentro'', u ''Medio Centro''),
      (u ''izquierda'', u ''Defensa Izquierda''),
      (u ''delantero'', u ''Ataque Centro''),
      (u ''atacante'', u ''Ataque Centro''),
      (u ''central'', u ''Defensa Centro''),
      (u ''derecha'', u ''Defensa Derecha''),
      (u ''pivote'', u ''Medio Centro''),
      (u ''punta'', u ''Ataque Centro'')]
     (normalize_label R player_position) (normalize_label R zone)"
  by (simp only: categorize_position_def longest_first_POSITION_MAP)

section \<open>Facts about the text primitives\<close>

lemma py_in_sublist: "py_in needle hay = sublist needle hay"
  by (induction hay) (simp_all add: sublist_Cons_right)

lemma set_set_iter: "set (set_iter R elements) = set elements"
  by (simp add: set_iter_def)

lemma any_set_iter:
  "list_ex P (set_iter R elements) = (\<exists>element \<in> set elements. P element)"
  by (simp add: list_ex_iff set_set_iter)

lemma contains_keyword_iff:
  "contains_keyword R value keywords =
     (\<exists>keyword \<in> set keywords. sublist keyword (normalize_label R value))"
  by (simp add: contains_keyword_def any_set_iter py_in_sublist)

lemma normalize_label_None: "normalize_label R None = []"
  by (simp add: normalize_label_def)

lemma GOAL_KEYWORDS_nonempty: "[] \<notin> set GOAL_KEYWORDS"
  by (simp add: GOAL_KEYWORDS_def u_def)

section \<open>Facts about the normaliser\<close>

lemma nfkd_from_ascii:
  "\<forall>c \<in> set s. c < 128 \<Longrightarrow> nfkd_from R run s = nfkd_run R run @ s"
  by (induction s arbitrary: run) (simp_all add: nfkd_run_def)

lemma nfkd_from_ascii_prefix:
  "\<forall>c \<in> set before. c < 128 \<Longrightarrow> nfkd_from R [] (before @ rest) = before @ nfkd_from R [] rest"
  by (induction before) (simp_all add: nfkd_run_def)

lemma nfkd_ascii: "\<forall>c \<in> set s. c < 128 \<Longrightarrow> nfkd R s = s"
  by (simp add: nfkd_def nfkd_from_ascii nfkd_run_def)

lemma nfkd_accented:
  assumes "\<forall>c \<in> set before. c < 128" and "\<forall>c \<in> set after. c < 128" and "128 \<le> accented"
  shows "nfkd R (before @ [accented] @ after) = before @ nfkd_ext R [accented] @ after"
proof -
  from assms(3) have "nfkd_from R [] (accented # after) = nfkd_from R [accented] after"
    by simp
  also from assms(2) have "\<dots> = nfkd_ext R [accented] @ after"
    by (simp add: nfkd_from_ascii nfkd_run_def)
  finally show ?thesis
    using assms(1) by (simp add: nfkd_def nfkd_from_ascii_prefix)
qed

lemma lower_from_ascii:
  "\<forall>c \<in> set s. c < 128 \<Longrightarrow> lower_from R seen s = map ascii_lower s"
  by (induction s arbitrary: seen) (simp_all add: ascii_lower_def)

lemma lower_ascii: "\<forall>c \<in> set s. c < 128 \<Longrightarrow> lower R s = map ascii_lower s"
  by (simp add: lower_def lower_from_ascii)

lemma set_strip: "set (strip R s) \<subseteq> set s"
proof -
  have "set (strip R s) \<subseteq> set (dropWhile (isspace R) s)"
    by (auto simp: strip_def dest: set_dropWhileD)
  then show ?thesis
    by (auto dest: set_dropWhileD)
qed

text \<open>On a text that is ASCII throughout, the normaliser filters, lowers and strips.\<close>

lemma normalize_label_ascii:
  assumes "\<forall>c \<in> set plain. c < 128"
  shows "normalize_label R (Some plain) =
           strip R (map ascii_lower (filter (\<lambda>ch. isalnum R ch \<or> isspace R ch) plain))"
proof (cases "plain = []")
  case True
  then show ?thesis by (simp add: normalize_label_def strip_def)
next
  case False
  from assms have "\<forall>c \<in> set (filter (\<lambda>ch. isalnum R ch \<or> isspace R ch) plain). c < 128"
    by simp
  then have "lower R (filter (\<lambda>ch. isalnum R ch \<or> isspace R ch) plain)
               = map ascii_lower (filter (\<lambda>ch. isalnum R ch \<or> isspace R ch) plain)"
    by (rule lower_ascii)
  with False assms show ?thesis
    by (simp add: normalize_label_def nfkd_ascii)
qed

lemma normalize_label_ascii_classes:
  assumes "\<forall>c \<in> set plain. c < 128" and "c \<in> set (normalize_label R (Some plain))"
  shows "(48 \<le> c \<and> c \<le> 57) \<or> (97 \<le> c \<and> c \<le> 122)
         \<or> c = 32 \<or> (9 \<le> c \<and> c \<le> 13) \<or> (28 \<le> c \<and> c \<le> 31)"
proof -
  from assms(2) normalize_label_ascii [OF assms(1)] set_strip
  have "c \<in> set (map ascii_lower (filter (\<lambda>ch. isalnum R ch \<or> isspace R ch) plain))"
    by fastforce
  then obtain d where d: "d \<in> set plain" "isalnum R d \<or> isspace R d" "c = ascii_lower d"
    by auto
  with assms(1) have "d < 128" by simp
  with d(2,3) show ?thesis
    by (auto simp: isalnum_def isspace_def ascii_lower_def)
qed

text \<open>
  A letter that decomposes into an ASCII base letter and a mark that is neither
  alphanumeric nor whitespace is normalised like its base letter.
\<close>

lemma normalize_label_accented:
  assumes "\<forall>c \<in> set before. c < 128" and "\<forall>c \<in> set after. c < 128"
    and "128 \<le> accented" and "nfkd_ext R [accented] = [base, mark]" and "base < 128"
    and "128 \<le> mark" and "\<not> isalnum_ext R mark" and "\<not> isspace_ext R mark"
  shows "normalize_label R (Some (before @ [accented] @ after))
           = normalize_label R (Some (before @ [base] @ after))"
proof -
  have mark: "\<not> (isalnum R mark \<or> isspace R mark)"
    using assms(6-8) by (simp add: isalnum_def isspace_def)
  have "nfkd R (before @ [accented] @ after) = before @ [base, mark] @ after"
    using nfkd_accented [OF assms(1-3)] assms(4) by simp
  then have "filter (\<lambda>ch. isalnum R ch \<or> isspace R ch) (nfkd R (before @ [accented] @ after))
               = filter (\<lambda>ch. isalnum R ch \<or> isspace R ch) (before @ [base] @ after)"
    using mark by simp
  moreover have "nfkd R (before @ [base] @ after) = before @ [base] @ after"
    using assms(1,2,5) by (intro nfkd_ascii) auto
  ultimately show ?thesis
    by (simp add: normalize_label_def)
qed

section \<open>Claims about the classifiers\<close>

text \<open>
  C1. For every event, with each of event type, result and observation possibly absent
  or empty, \<open>is_goal_event\<close> is true if and only if at least one of the three fields,
  after normalisation, has some keyword of the goal keyword set as a substring. An
  absent field normalises to the empty string, and the empty string has no goal keyword
  as a substring. The normalisation lowers the text and removes what is neither
  alphanumeric nor whitespace: of an ASCII text it keeps the letters, digits and
  whitespace, lowered, and nothing else. It strips diacritics: a letter that decomposes
  into an ASCII letter and a combining mark is read as that letter, so the accented text
  is a goal exactly when the unaccented text is.
\<close>

theorem C1_is_goal_event_iff:
  assumes "\<forall>c \<in> set plain. c < 128"
    and "\<forall>c \<in> set before. c < 128" and "\<forall>c \<in> set after. c < 128"
    and "128 \<le> accented" and "nfkd_ext R [accented] = [base, mark]" and "base < 128"
    and "128 \<le> mark" and "\<not> isalnum_ext R mark" and "\<not> isspace_ext R mark"
  shows "is_goal_event R event_type result observation =
           (\<exists>field \<in> {event_type, result, observation}.
              \<exists>keyword \<in> set GOAL_KEYWORDS. sublist keyword (normalize_label R field))
         \<and> normalize_label R None = []
         \<and> \<not> (\<exists>keyword \<in> set GOAL_KEYWORDS. sublist keyword (normalize_label R None))
         \<and> normalize_label R (Some plain)
             = strip R (map ascii_lower (filter (\<lambda>ch. isalnum R ch \<or> isspace R ch) plain))
         \<and> (\<forall>c \<in> set (normalize_label R (Some plain)).
               (48 \<le> c \<and> c \<le> 57) \<or> (97 \<le> c \<and> c \<le> 122)
               \<or> c = 32 \<or> (9 \<le> c \<and> c \<le> 13) \<or> (28 \<le> c \<and> c \<le> 31))
         \<and> normalize_label R (Some (before @ [accented] @ after))
             = normalize_label R (Some (before @ [base] @ after))
         \<and> is_goal_event R (Some (before @ [accented] @ after)) result observation
             = is_goal_event R (Some (before @ [base] @ after)) result observation"
proof -
  have absent: "\<not> (\<exists>keyword \<in> set GOAL_KEYWORDS. sublist keyword (normalize_label R None))"
    using GOAL_KEYWORDS_nonempty by (auto simp: normalize_label_None)
  have iff: "is_goal_event R event_type result observation =
     (\<exists>field \<in> {event_type, result, observation}.
        \<exists>keyword \<in> set GOAL_KEYWORDS. sublist keyword (normalize_label R field))"
    unfolding is_goal_event_def contains_keyword_iff by blast
  note plain = normalize_label_ascii [OF assms(1), of R]
  have classes: "\<forall>c \<in> set (normalize_label R (Some plain)).
               (48 \<le> c \<and> c \<le> 57) \<or> (97 \<le> c \<and> c \<le> 122)
               \<or> c = 32 \<or> (9 \<le> c \<and> c \<le> 13) \<or> (28 \<le> c \<and> c \<le> 31)"
    using normalize_label_ascii_classes [OF assms(1)] by blast
  note accent = normalize_label_accented [OF assms(2-9)]
  then have goal: "is_goal_event R (Some (before @ [accented] @ after)) result observation
             = is_goal_event R (Some (before @ [base] @ after)) result observation"
    by (simp only: is_goal_event_def contains_keyword_iff)
  from absent iff plain classes accent goal show ?thesis
    by (simp only: normalize_label_None simp_thms)
qed

text \<open>
  C1 at boundary inputs: the mixed-case, accented event type \<open>G\'ol!\<close> normalises to
  \<open>gol\<close> and is a goal, as is \<open>G.O.L\<close>; an absent result, an empty event type and a
  whitespace-only observation contribute nothing.
\<close>

theorem C1_is_goal_event_witness:
  "is_goal_event spanish_runtime (Some (u ''G'' @ [243] @ u ''l!'')) None (Some (u ''  ''))
   \<and> normalize_label spanish_runtime (Some (u ''G'' @ [243] @ u ''l!'')) = u ''gol''
   \<and> normalize_label spanish_runtime (Some (u ''G.O.L'')) = u ''gol''
   \<and> is_goal_event spanish_runtime (Some (u ''G.O.L'')) None None
   \<and> \<not> is_goal_event spanish_runtime (Some []) None (Some (u ''  ''))
   \<and> (\<exists>field \<in> {Some (u ''G'' @ [243] @ u ''l!''), None, Some (u ''  '')}.
        \<exists>keyword \<in> set GOAL_KEYWORDS. sublist keyword (normalize_label spanish_runtime field))"
proof -
  have h1: "\<forall>c \<in> set (u ''G.O.L''). c < 128" by (simp add: u_def)
  have h2: "\<forall>c \<in> set (u ''G''). c < 128" by (simp add: u_def)
  have h3: "\<forall>c \<in> set (u ''l!''). c < 128" by (simp add: u_def)
  have h4: "(128::nat) \<le> 243" by simp
  have h5: "nfkd_ext spanish_runtime [243] = [111, 769]"
    by (simp add: spanish_runtime_def decompose_def)
  have h6: "(111::nat) < 128" by simp
  have h7: "(128::nat) \<le> 769" by simp
  have h8: "\<not> isalnum_ext spanish_runtime 769"
    by (simp add: spanish_runtime_def spanish_letter_def)
  have h9: "\<not> isspace_ext spanish_runtime 769"
    by (simp add: spanish_runtime_def ascii_runtime_def)
  have base: "normalize_label spanish_runtime (Some (u ''G'' @ [111] @ u ''l!'')) = u ''gol''"
    by code_simp
  have dots: "normalize_label spanish_runtime (Some (u ''G.O.L'')) = u ''gol''"
    by code_simp
  have goal: "is_goal_event spanish_runtime (Some (u ''G.O.L'')) None None"
    by code_simp
  have none: "\<not> is_goal_event spanish_runtime (Some []) None (Some (u ''  ''))"
    by code_simp
  have plain_goal: "is_goal_event spanish_runtime (Some (u ''G'' @ [111] @ u ''l!'')) None (Some (u ''  ''))"
    by code_simp
  note claim = C1_is_goal_event_iff [OF h1 h2 h3 h4 h5 h6 h7 h8 h9,
         of "Some (u ''G'' @ [243] @ u ''l!'')" None "Some (u ''  '')"]
  note iff = claim [THEN conjunct1]
  note accent = claim [THEN conjunct2, THEN conjunct2, THEN conjunct2, THEN conjunct2,
                       THEN conjunct2, THEN conjunct1]
  note same_goal = claim [THEN conjunct2, THEN conjunct2, THEN conjunct2, THEN conjunct2,
                          THEN conjunct2, THEN conjunct2]
  have accented_goal:
    "is_goal_event spanish_runtime (Some (u ''G'' @ [243] @ u ''l!'')) None (Some (u ''  ''))"
    using same_goal plain_goal by (simp only:)
  have accented_text:
    "normalize_label spanish_runtime (Some (u ''G'' @ [243] @ u ''l!'')) = u ''gol''"
    using accent base by (simp only:)
  have found:
    "\<exists>field \<in> {Some (u ''G'' @ [243] @ u ''l!''), None, Some (u ''  '')}.
        \<exists>keyword \<in> set GOAL_KEYWORDS. sublist keyword (normalize_label spanish_runtime field)"
    using iff accented_goal by (simp only:)
  from accented_goal accented_text dots goal none found show ?thesis
    by (intro conjI)
qed

text \<open>
  C6. The claim: \<open>map_tercio\<close> resolves a text by the longest table phrase it contains.
  The code walks the table in the order written, so on the text
  \<open>construccion de ataque\<close> it answers at the key \<open>ataque\<close> (the first of the table) with
  the third of attack, where the longest contained phrase \<open>construccion\<close> stands for the
  third of build-up.
\<close>

theorem C6_map_tercio_first_not_longest:
  "map_tercio ascii_runtime (Some (u ''construccion de ataque'')) = Some (u ''Ataque'')
   \<and> map_tercio_longest_first ascii_runtime (Some (u ''construccion de ataque''))
       = Some (u ''Construcci'' @ [243] @ u ''n'')"
  by code_simp

text \<open>
  C7, as the specification states it: no event is both a substitution entry and a
  substitution exit. It fails for a substitution whose result names the entry and
  whose zone names the exit.
\<close>

theorem C7_entry_and_exit_counterexample:
  "is_substitution_entry ascii_runtime (Some (u ''Cambio'')) (Some (u ''Entrada'')) (Some (u ''Salida''))
   \<and> is_substitution_exit ascii_runtime (Some (u ''Cambio'')) (Some (u ''Entrada'')) (Some (u ''Salida''))"
  by code_simp

text \<open>
  C7, amended: an event is both a substitution entry and a substitution exit exactly
  when it is a substitution event whose normalised result or zone contains an entry
  keyword and whose normalised result or zone contains an exit keyword; every other
  event is at most one of the two.
\<close>

theorem C7_entry_and_exit_iff:
  "(is_substitution_entry R event_type result zone \<and> is_substitution_exit R event_type result zone) =
     (is_substitution_event R event_type zone
      \<and> (\<exists>keyword \<in> set SUB_ENTRY_KEYWORDS.
            sublist keyword (normalize_label R result) \<or> sublist keyword (normalize_label R zone))
      \<and> (\<exists>keyword \<in> set SUB_EXIT_KEYWORDS.
            sublist keyword (normalize_label R result) \<or> sublist keyword (normalize_label R zone)))"
  unfolding is_substitution_entry_def is_substitution_exit_def contains_keyword_iff
  by auto

section \<open>Facts about the timelines\<close>

lemma min_or_none_zero: "min_or_none current (Some 0) = Some 0"
  by (simp add: min_or_none_def split: option.splits)

lemma min_or_none_keeps_zero: "min_or_none (Some 0) candidate = Some 0"
  by (simp add: min_or_none_def split: option.splits)

lemma record_timeline_keeps_entry_zero:
  "entry timeline = Some 0 \<Longrightarrow> entry (record_timeline R event timeline) = Some 0"
  by (simp add: record_timeline_def Let_def min_or_none_keeps_zero)

lemma record_timeline_has_event: "has_event (record_timeline R event timeline)"
  by (simp add: record_timeline_def Let_def)

lemma record_timeline_absent_entry:
  "e_minute event = None \<Longrightarrow> is_entry R event \<Longrightarrow>
   entry (record_timeline R event timeline) = Some 0"
  by (simp add: record_timeline_def is_entry_def Let_def min_or_none_zero)

lemma record_timeline_absent_exit:
  "e_minute event = None \<Longrightarrow> is_exit R event \<Longrightarrow>
   exit (record_timeline R event timeline) = Some 0"
  by (simp add: record_timeline_def is_exit_def Let_def min_or_none_zero)

lemma derive_minutes_inverted:
  "entry timeline = Some e \<Longrightarrow> exit timeline = Some x \<Longrightarrow> x < e \<Longrightarrow>
   derive_minutes match_end timeline = (int e, int e)"
  by (simp add: derive_minutes_def Let_def)

lemma derive_minutes_entry_zero:
  "entry timeline = Some 0 \<Longrightarrow>
   derive_minutes match_end timeline =
     (0, case exit timeline of None \<Rightarrow> int match_end | Some minute \<Rightarrow> int minute)"
  by (simp add: derive_minutes_def Let_def split: option.splits)

lemma minutes_apply_timeline:
  "minutes (apply_timeline match_end timeline stats) =
     minutes stats
     + max 0 (snd (derive_minutes match_end timeline) - fst (derive_minutes match_end timeline))"
  by (simp add: apply_timeline_def Let_def split: prod.splits)

lemma pj_apply_timeline:
  "pj (apply_timeline match_end timeline stats) = pj stats + (if has_event timeline then 1 else 0)"
  by (simp add: apply_timeline_def Let_def split: prod.splits)

lemma pt_apply_timeline:
  "pt (apply_timeline match_end timeline stats) =
     (if fst (derive_minutes match_end timeline) = 0 then pt stats + 1 else pt stats)"
  by (simp add: apply_timeline_def Let_def split: prod.splits)

lemma live_step_timeline_of:
  "timeline_of (snd (live_step R state event)) pid mid =
     (if concerns pid mid event
      then Some (record_timeline R event
                   (case timeline_of (snd state) pid mid of
                      None \<Rightarrow> \<lparr>entry = None, exit = None, has_event = False\<rparr>
                    | Some existing \<Rightarrow> existing))
      else timeline_of (snd state) pid mid)"
  by (auto simp: live_step_def concerns_def timeline_of_def Let_def update_conv'
           split: option.splits)

lemma record_timeline_keeps_exit_zero:
  "exit timeline = Some 0 \<Longrightarrow> exit (record_timeline R event timeline) = Some 0"
  by (simp add: record_timeline_def Let_def min_or_none_keeps_zero)

text \<open>
  What the recording of an event establishes on the timeline of its player and match,
  and every later recording keeps, holds of the timeline after the loop.
\<close>

lemma foldl_live_step_keeps:
  assumes keep: "\<And>later timeline. Q timeline \<Longrightarrow> Q (record_timeline R later timeline)"
  shows "timeline_of (snd state) pid mid = Some timeline \<Longrightarrow> Q timeline \<Longrightarrow>
         \<exists>timeline'. timeline_of (snd (foldl (live_step R) state events)) pid mid = Some timeline'
            \<and> Q timeline'"
proof (induction events arbitrary: state timeline)
  case Nil
  then show ?case by simp
next
  case (Cons event events)
  from Cons.prems keep have
    "\<exists>timeline'. timeline_of (snd (live_step R state event)) pid mid = Some timeline'
        \<and> Q timeline'"
    by (simp add: live_step_timeline_of)
  then obtain timeline' where
    "timeline_of (snd (live_step R state event)) pid mid = Some timeline'" "Q timeline'"
    by blast
  from Cons.IH [OF this] show ?case by simp
qed

lemma foldl_live_step_establishes:
  assumes est: "\<And>timeline. Q (record_timeline R event timeline)"
    and keep: "\<And>later timeline. Q timeline \<Longrightarrow> Q (record_timeline R later timeline)"
  shows "event \<in> set events \<Longrightarrow> concerns pid mid event \<Longrightarrow>
         \<exists>timeline. timeline_of (snd (foldl (live_step R) state events)) pid mid = Some timeline
            \<and> Q timeline"
proof (induction events arbitrary: state)
  case Nil
  then show ?case by simp
next
  case (Cons first events)
  show ?case
  proof (cases "event = first")
    case True
    with Cons.prems est have
      "\<exists>timeline. timeline_of (snd (live_step R state first)) pid mid = Some timeline
          \<and> Q timeline"
      by (simp add: live_step_timeline_of)
    then obtain timeline where
      "timeline_of (snd (live_step R state first)) pid mid = Some timeline" "Q timeline"
      by blast
    from foldl_live_step_keeps [of Q R, OF keep this] show ?thesis by simp
  next
    case False
    with Cons.prems have "event \<in> set events" by simp
    from Cons.IH [OF this Cons.prems(2)] show ?thesis by simp
  qed
qed

section \<open>Claims about the reconstruction of the timeline\<close>

text \<open>
  C3. Whenever the exit minute derived for a player in a match is earlier than the
  entry minute (entry 10 and exit 5, say), the reconstruction sets the exit minute to
  the entry minute and adds 0 minutes played, never a negative number. The comparison
  is between two integers: no error is raised.
\<close>

theorem C3_inverted_exit_is_clamped:
  assumes "entry timeline = Some entry_minute"
    and "exit timeline = Some exit_minute"
    and "exit_minute < entry_minute"
  shows "derive_minutes match_end timeline = (int entry_minute, int entry_minute)
         \<and> minutes (apply_timeline match_end timeline stats) = minutes stats + 0"
  using assms by (simp add: minutes_apply_timeline derive_minutes_inverted)

theorem C3_inverted_exit_witness:
  "derive_minutes 90 \<lparr>entry = Some 10, exit = Some 5, has_event = True\<rparr> = (10, 10)
   \<and> minutes (apply_timeline 90 \<lparr>entry = Some 10, exit = Some 5, has_event = True\<rparr>
        (new_stats \<lparr>p_id = 7, p_team = 1, p_name = u ''Ana'', p_number = None, p_position = []\<rparr> None))
      = 0"
  using C3_inverted_exit_is_clamped
    [of "\<lparr>entry = Some 10, exit = Some 5, has_event = True\<rparr>" 10 5 90
        "new_stats \<lparr>p_id = 7, p_team = 1, p_name = u ''Ana'', p_number = None, p_position = []\<rparr> None"]
  by (simp add: new_stats_def)

text \<open>
  C10. A substitution entry (or exit) whose minute is absent is recorded with minute
  0, and the entry (or exit) minute of that player in that match is then 0 whatever
  else the live events hold. So a player whose entry has no minute counts as a starter,
  and is credited with the minutes from 0 up to the match end minute (up to the exit
  minute when an exit was recorded).
\<close>

theorem C10_absent_minute_is_zero:
  assumes "event \<in> set events"
    and "concerns pid mid event"
    and "e_minute event = None"
  shows "\<exists>timeline.
           timeline_of (snd (foldl (live_step R) ([], []) events)) pid mid = Some timeline
           \<and> (is_exit R event \<longrightarrow> exit timeline = Some 0)
           \<and> (is_entry R event \<longrightarrow>
                 entry timeline = Some 0
                 \<and> fst (derive_minutes match_end timeline) = 0
                 \<and> pt (apply_timeline match_end timeline stats) = pt stats + 1
                 \<and> minutes (apply_timeline match_end timeline stats)
                     = minutes stats
                       + (case exit timeline of None \<Rightarrow> int match_end | Some minute \<Rightarrow> int minute))"
proof -
  have "\<exists>timeline.
          timeline_of (snd (foldl (live_step R) ([], []) events)) pid mid = Some timeline
          \<and> ((is_entry R event \<longrightarrow> entry timeline = Some 0)
               \<and> (is_exit R event \<longrightarrow> exit timeline = Some 0))"
  proof (rule foldl_live_step_establishes [OF _ _ assms(1,2)])
    fix timeline :: timeline
    show "(is_entry R event \<longrightarrow> entry (record_timeline R event timeline) = Some 0)
          \<and> (is_exit R event \<longrightarrow> exit (record_timeline R event timeline) = Some 0)"
      using assms(3) by (simp add: record_timeline_absent_entry record_timeline_absent_exit)
  next
    fix later and timeline :: timeline
    assume "(is_entry R event \<longrightarrow> entry timeline = Some 0)
            \<and> (is_exit R event \<longrightarrow> exit timeline = Some 0)"
    then show "(is_entry R event \<longrightarrow> entry (record_timeline R later timeline) = Some 0)
               \<and> (is_exit R event \<longrightarrow> exit (record_timeline R later timeline) = Some 0)"
      by (simp add: record_timeline_keeps_entry_zero record_timeline_keeps_exit_zero)
  qed
  then obtain timeline where
    t: "timeline_of (snd (foldl (live_step R) ([], []) events)) pid mid = Some timeline"
    and en: "is_entry R event \<longrightarrow> entry timeline = Some 0"
    and ex: "is_exit R event \<longrightarrow> exit timeline = Some 0"
    by blast
  have "entry timeline = Some 0 \<Longrightarrow>
          fst (derive_minutes match_end timeline) = 0
          \<and> pt (apply_timeline match_end timeline stats) = pt stats + 1
          \<and> minutes (apply_timeline match_end timeline stats)
              = minutes stats
                + (case exit timeline of None \<Rightarrow> int match_end | Some minute \<Rightarrow> int minute)"
    by (auto simp: pt_apply_timeline minutes_apply_timeline derive_minutes_entry_zero
             split: option.splits)
  with t en ex show ?thesis by blast
qed

text \<open>
  C10 on a sample: an entry without minute, then a pass at minute 90. The timeline of
  the player in the match has entry 0 and no exit, and with the match end 90 the
  player is a starter with 90 minutes.
\<close>

theorem C10_absent_minute_witness:
  "\<exists>timeline.
     timeline_of (snd (foldl (live_step ascii_runtime) ([], [])
        [sample_event round2 None ''Cambio'' ''Entrada'' ''touch-field-final'',
         sample_event round2 (Some 90) ''Pase'' ''OK'' ''touch-field-final''])) 7 3
       = Some timeline
     \<and> timeline = \<lparr>entry = Some 0, exit = None, has_event = True\<rparr>
     \<and> fst (derive_minutes 90 timeline) = 0
     \<and> pt (apply_timeline 90 timeline (new_stats ana None)) = pt (new_stats ana None) + 1
     \<and> minutes (apply_timeline 90 timeline (new_stats ana None))
         = minutes (new_stats ana None) + 90"
proof -
  let ?first = "sample_event round2 None ''Cambio'' ''Entrada'' ''touch-field-final''"
  let ?events = "[?first, sample_event round2 (Some 90) ''Pase'' ''OK'' ''touch-field-final'']"
  have a: "?first \<in> set ?events" by simp
  have b: "concerns 7 3 ?first" by code_simp
  have c: "e_minute ?first = None" by (simp add: sample_event_def)
  have d: "is_entry ascii_runtime ?first" by code_simp
  have e: "timeline_of (snd (foldl (live_step ascii_runtime) ([], []) ?events)) 7 3
            = Some \<lparr>entry = Some 0, exit = None, has_event = True\<rparr>"
    by code_simp
  from C10_absent_minute_is_zero [OF a b c, of ascii_runtime 90 "new_stats ana None"] d e
  show ?thesis by auto
qed

section \<open>Facts about the loop over the events\<close>

lemma in_set_updateD:
  "(k', v') \<in> set (AList.update k v al) \<Longrightarrow> (k', v') = (k, v) \<or> (k', v') \<in> set al"
  by (induction al) (auto split: if_splits)

lemma self_zone_counts: "\<exists>counts. stats = stats\<lparr>zone_counts := counts\<rparr>"
  by (rule exI [of _ "zone_counts stats"]) simp

lemma self_tercio_counts:
  "\<exists>counts totals. stats = stats\<lparr>tercio_counts := counts, tercio_totals := totals\<rparr>"
  by (rule exI [of _ "tercio_counts stats"], rule exI [of _ "tercio_totals stats"]) simp

lemma self_position_counts: "\<exists>counts. stats = stats\<lparr>position_counts := counts\<rparr>"
  by (rule exI [of _ "position_counts stats"]) simp

lemma self_matches: "\<exists>entries. stats = stats\<lparr>matches := entries\<rparr>"
  by (rule exI [of _ "matches stats"]) simp

lemma count_zone_frame:
  "count_zone R event stats = Inr stats' \<Longrightarrow> \<exists>counts. stats' = stats\<lparr>zone_counts := counts\<rparr>"
  by (auto simp: count_zone_def Let_def intro: self_zone_counts split: option.splits sum.splits)

lemma count_tercio_frame:
  "count_tercio R event stats = Inr stats' \<Longrightarrow>
   \<exists>counts totals. stats' = stats\<lparr>tercio_counts := counts, tercio_totals := totals\<rparr>"
  by (auto simp: count_tercio_def Let_def intro: self_tercio_counts
           split: option.splits sum.splits if_splits)

lemma count_position_frame:
  "count_position R player event stats = Inr stats' \<Longrightarrow>
   \<exists>counts. stats' = stats\<lparr>position_counts := counts\<rparr>"
  by (auto simp: count_position_def Let_def intro: self_position_counts
           split: option.splits sum.splits)

lemma count_match_frame:
  "count_match R primary_team event stats = Inr stats' \<Longrightarrow>
   \<exists>entries. stats' = stats\<lparr>matches := entries\<rparr>"
  by (auto simp: count_match_def Let_def intro: self_matches split: option.splits sum.splits)

lemma count_event_frame:
  assumes "count_event R primary_team player event stats = Inr stats'"
  shows "\<exists>zc tc tt pc' entries.
           stats' = (count_shots_passes R event
                       ((count_actions R event stats)
                          \<lparr>zone_counts := zc, tercio_counts := tc, tercio_totals := tt,
                            position_counts := pc'\<rparr>))
                    \<lparr>matches := entries\<rparr>"
proof -
  from assms obtain s1 s2 s3 where
    z: "count_zone R event (count_actions R event stats) = Inr s1"
    and t: "count_tercio R event s1 = Inr s2"
    and p: "count_position R player event s2 = Inr s3"
    and m: "count_match R primary_team event (count_shots_passes R event s3) = Inr stats'"
    by (auto simp: count_event_def split: sum.splits)
  from count_zone_frame [OF z] obtain zc where
    s1: "s1 = (count_actions R event stats)\<lparr>zone_counts := zc\<rparr>" by blast
  from count_tercio_frame [OF t] obtain tc tt where
    s2: "s2 = s1\<lparr>tercio_counts := tc, tercio_totals := tt\<rparr>" by blast
  from count_position_frame [OF p] obtain pc' where
    s3: "s3 = s2\<lparr>position_counts := pc'\<rparr>" by blast
  from count_match_frame [OF m] obtain entries where
    "stats' = (count_shots_passes R event s3)\<lparr>matches := entries\<rparr>" by blast
  with s1 s2 s3 have
    "stats' = (count_shots_passes R event
                 ((count_actions R event stats)
                    \<lparr>zone_counts := zc, tercio_counts := tc, tercio_totals := tt,
                      position_counts := pc'\<rparr>))
              \<lparr>matches := entries\<rparr>"
    by simp
  then show ?thesis by blast
qed

lemma event_step_cases:
  assumes "event_step R primary_team roster_cache player_stats event = Inr player_stats'"
  obtains (skip) "e_player event = None" "player_stats' = player_stats"
  | (count) player stats stats' where
      "e_player event = Some player"
      "map_of player_stats (p_id player) = Some stats
       \<or> map_of player_stats (p_id player) = None
          \<and> stats = new_stats player (find_roster_entry R (p_name player) roster_cache)"
      "count_event R primary_team player event stats = Inr stats'"
      "player_stats' = AList.update (p_id player) stats' player_stats"
  using assms
  by (auto simp: event_step_def Let_def split: option.splits sum.splits)

text \<open>
  A property of the entries of \<open>player_stats\<close> that the counting of an event
  establishes on a new entry and keeps on an old one holds after the loop.
\<close>

lemma event_step_invariant:
  assumes inv: "\<forall>(key, stats) \<in> set player_stats. P key stats"
    and step: "event_step R primary_team roster_cache player_stats event = Inr player_stats'"
    and keep: "\<And>stats stats' player.
                e_player event = Some player \<Longrightarrow>
                P (p_id player) stats
                \<or> stats = new_stats player (find_roster_entry R (p_name player) roster_cache) \<Longrightarrow>
                count_event R primary_team player event stats = Inr stats' \<Longrightarrow>
                P (p_id player) stats'"
  shows "\<forall>(key, stats) \<in> set player_stats'. P key stats"
  using step
proof (cases rule: event_step_cases)
  case skip
  with inv show ?thesis by simp
next
  case (count player stats stats')
  have "P (p_id player) stats
        \<or> stats = new_stats player (find_roster_entry R (p_name player) roster_cache)"
    using count(2)
  proof
    assume "map_of player_stats (p_id player) = Some stats"
    then have "(p_id player, stats) \<in> set player_stats" by (rule map_of_SomeD)
    with inv show ?thesis by auto
  next
    assume "map_of player_stats (p_id player) = None
              \<and> stats = new_stats player (find_roster_entry R (p_name player) roster_cache)"
    then show ?thesis by simp
  qed
  from keep [OF count(1) this count(3)] have "P (p_id player) stats'" .
  with inv count(4) show ?thesis
    by (auto dest: in_set_updateD)
qed

lemma fold_events_invariant:
  assumes "fold_events R primary_team roster_cache player_stats events = Inr player_stats'"
    and "\<forall>(key, stats) \<in> set player_stats. P key stats"
    and "\<And>stats stats' player event.
           event \<in> set events \<Longrightarrow> e_player event = Some player \<Longrightarrow>
           P (p_id player) stats
           \<or> stats = new_stats player (find_roster_entry R (p_name player) roster_cache) \<Longrightarrow>
           count_event R primary_team player event stats = Inr stats' \<Longrightarrow>
           P (p_id player) stats'"
  shows "\<forall>(key, stats) \<in> set player_stats'. P key stats"
  using assms
proof (induction events arbitrary: player_stats)
  case Nil
  then show ?case by simp
next
  case (Cons event events)
  from Cons.prems(1) obtain middle where
    step: "event_step R primary_team roster_cache player_stats event = Inr middle"
    and rest: "fold_events R primary_team roster_cache middle events = Inr player_stats'"
    by (auto split: sum.splits)
  have "\<forall>(key, stats) \<in> set middle. P key stats"
    by (rule event_step_invariant [OF Cons.prems(2) step]) (rule Cons.prems(3), simp_all)
  from Cons.IH [OF rest this] Cons.prems(3) show ?case
    by auto
qed

lemma event_step_distinct:
  "event_step R primary_team roster_cache player_stats event = Inr player_stats' \<Longrightarrow>
   distinct (map fst player_stats) \<Longrightarrow> distinct (map fst player_stats')"
  by (erule event_step_cases) (simp_all add: distinct_update)

lemma fold_events_distinct:
  "fold_events R primary_team roster_cache player_stats events = Inr player_stats' \<Longrightarrow>
   distinct (map fst player_stats) \<Longrightarrow> distinct (map fst player_stats')"
proof (induction events arbitrary: player_stats)
  case Nil
  then show ?case by simp
next
  case (Cons event events)
  from Cons.prems(1) obtain middle where
    step: "event_step R primary_team roster_cache player_stats event = Inr middle"
    and rest: "fold_events R primary_team roster_cache middle events = Inr player_stats'"
    by (auto split: sum.splits)
  from Cons.IH [OF rest event_step_distinct [OF step Cons.prems(2)]] show ?case .
qed

lemma counters_ok_new_stats: "counters_ok (new_stats player roster_entry)"
  by (simp add: counters_ok_def new_stats_def)

lemma count_actions_fields:
  "total_actions (count_actions R event stats) = total_actions stats + 1"
  "successes (count_actions R event stats) =
     (if result_is_success R (e_result event) then successes stats + 1 else successes stats)"
  "duels_total (count_actions R event stats) =
     (if is_duel_event R (Some (e_event_type event)) (Some (e_observation event))
      then duels_total stats + 1 else duels_total stats)"
  "duels_won (count_actions R event stats) =
     (if is_duel_event R (Some (e_event_type event)) (Some (e_observation event))
         \<and> duel_result_is_success R (e_result event)
      then duels_won stats + 1 else duels_won stats)"
  "shot_attempts (count_actions R event stats) = shot_attempts stats"
  "shots_on_target (count_actions R event stats) = shots_on_target stats"
  "pass_attempts (count_actions R event stats) = pass_attempts stats"
  "passes_completed (count_actions R event stats) = passes_completed stats"
  "pj (count_actions R event stats) = pj stats"
  "player_id (count_actions R event stats) = player_id stats"
  "has_events (count_actions R event stats)"
  by (simp_all add: count_actions_def Let_def if_distrib [of total_actions] if_distrib [of successes]
        if_distrib [of duels_total] if_distrib [of duels_won] if_distrib [of shot_attempts]
        if_distrib [of shots_on_target] if_distrib [of pass_attempts] if_distrib [of passes_completed]
        if_distrib [of pj] if_distrib [of player_id] if_distrib [of has_events]
        cong: if_cong)

lemma count_shots_passes_fields:
  "total_actions (count_shots_passes R event stats) = total_actions stats"
  "successes (count_shots_passes R event stats) = successes stats"
  "duels_total (count_shots_passes R event stats) = duels_total stats"
  "duels_won (count_shots_passes R event stats) = duels_won stats"
  "shot_attempts (count_shots_passes R event stats) =
     (if contains_keyword R (Some (e_event_type event)) SHOT_KEYWORDS
         \<or> contains_keyword R (Some (e_observation event)) SHOT_KEYWORDS
      then shot_attempts stats + 1 else shot_attempts stats)"
  "shots_on_target (count_shots_passes R event stats) =
     (if (contains_keyword R (Some (e_event_type event)) SHOT_KEYWORDS
          \<or> contains_keyword R (Some (e_observation event)) SHOT_KEYWORDS)
         \<and> result_is_success R (e_result event)
      then shots_on_target stats + 1 else shots_on_target stats)"
  "pass_attempts (count_shots_passes R event stats) =
     (if contains_keyword R (Some (e_event_type event)) PASS_KEYWORDS
         \<or> contains_keyword R (Some (e_observation event)) PASS_KEYWORDS
      then pass_attempts stats + 1 else pass_attempts stats)"
  "passes_completed (count_shots_passes R event stats) =
     (if (contains_keyword R (Some (e_event_type event)) PASS_KEYWORDS
          \<or> contains_keyword R (Some (e_observation event)) PASS_KEYWORDS)
         \<and> result_is_success R (e_result event)
      then passes_completed stats + 1 else passes_completed stats)"
  "pj (count_shots_passes R event stats) = pj stats"
  "player_id (count_shots_passes R event stats) = player_id stats"
  "has_events (count_shots_passes R event stats) = has_events stats"
  by (simp_all add: count_shots_passes_def Let_def if_distrib [of total_actions]
        if_distrib [of successes] if_distrib [of duels_total] if_distrib [of duels_won]
        if_distrib [of shot_attempts] if_distrib [of shots_on_target] if_distrib [of pass_attempts]
        if_distrib [of passes_completed] if_distrib [of pj] if_distrib [of player_id]
        if_distrib [of has_events]
        cong: if_cong)

lemma counters_ok_count_actions: "counters_ok stats \<Longrightarrow> counters_ok (count_actions R event stats)"
  by (simp add: counters_ok_def count_actions_fields)

lemma counters_ok_count_shots_passes:
  "counters_ok stats \<Longrightarrow> counters_ok (count_shots_passes R event stats)"
  by (simp add: counters_ok_def count_shots_passes_fields)

lemma counters_ok_count_event:
  assumes "counters_ok stats" "count_event R primary_team player event stats = Inr stats'"
  shows "counters_ok stats'"
proof -
  from count_event_frame [OF assms(2)] obtain zc tc tt pc' entries where
    eq: "stats' = (count_shots_passes R event
                     ((count_actions R event stats)
                        \<lparr>zone_counts := zc, tercio_counts := tc, tercio_totals := tt,
                          position_counts := pc'\<rparr>))
                  \<lparr>matches := entries\<rparr>"
    by blast
  from assms(1) have "counters_ok (count_actions R event stats)"
    by (rule counters_ok_count_actions)
  then have "counters_ok ((count_actions R event stats)
                \<lparr>zone_counts := zc, tercio_counts := tc, tercio_totals := tt, position_counts := pc'\<rparr>)"
    by (simp add: counters_ok_def)
  then have "counters_ok (count_shots_passes R event
               ((count_actions R event stats)
                  \<lparr>zone_counts := zc, tercio_counts := tc, tercio_totals := tt, position_counts := pc'\<rparr>))"
    by (rule counters_ok_count_shots_passes)
  with eq show ?thesis by (simp add: counters_ok_def)
qed

section \<open>Facts about the merged output\<close>

lemma merge_stats_out:
  assumes "merge_stats R roster_cache leftover stats = Inr merged"
  shows "out_stats merged = stats"
    and "out_matches merged = sorted_matches R stats"
    and "percentage R (successes stats) (total_actions stats) = Inr (out_success_rate merged)"
    and "percentage R (duels_won stats) (duels_total stats) = Inr (out_duel_rate merged)"
    and "\<exists>accuracy. percentage R (shots_on_target stats) (shot_attempts stats) = Inr accuracy
           \<and> out_shots merged = (shot_attempts stats, shots_on_target stats, accuracy)"
    and "\<exists>accuracy. percentage R (passes_completed stats) (pass_attempts stats) = Inr accuracy
           \<and> out_passes merged = (pass_attempts stats, passes_completed stats, accuracy)"
  using assms by (auto simp: merge_stats_def Let_def split: sum.splits)

lemma merge_all_member:
  "merge_all R roster_cache leftover stats_list = Inr result \<Longrightarrow> merged \<in> set result \<Longrightarrow>
   \<exists>stats \<in> set stats_list. merge_stats R roster_cache leftover stats = Inr merged"
proof (induction stats_list arbitrary: result)
  case Nil
  then show ?case by simp
next
  case (Cons stats rest)
  then show ?case
    by (auto split: sum.splits)
qed

lemma compute_player_dashboard_member:
  assumes "compute_player_dashboard R primary_team MatchEvent_objects Player_objects roster_cache
             = Inr result"
    and "merged \<in> set result"
  shows "\<exists>player_stats leftover key stats.
           reconstructed_stats R primary_team MatchEvent_objects roster_cache = Inr player_stats
           \<and> (key, stats) \<in> set (foldl (add_roster_player R roster_cache) player_stats
                                  (roster_players primary_team Player_objects))
           \<and> merge_stats R roster_cache leftover stats = Inr merged"
proof -
  from assms(1) obtain player_stats unsorted where
    ps: "reconstructed_stats R primary_team MatchEvent_objects roster_cache = Inr player_stats"
    and all: "merge_all R roster_cache
        (leftover_player (confirmed_events primary_team MatchEvent_objects)
           (live_events primary_team MatchEvent_objects) (roster_players primary_team Player_objects))
        (map snd (foldl (add_roster_player R roster_cache) player_stats
                    (roster_players primary_team Player_objects))) = Inr unsorted"
    and res: "result = sort_key (\<lambda>merged. - total_actions (out_stats merged)) unsorted"
    by (auto simp: compute_player_dashboard_def Let_def split: sum.splits)
  from res assms(2) have "merged \<in> set unsorted" by simp
  from merge_all_member [OF all this] obtain key stats where
    "(key, stats) \<in> set (foldl (add_roster_player R roster_cache) player_stats
                            (roster_players primary_team Player_objects))"
    "merge_stats R roster_cache
       (leftover_player (confirmed_events primary_team MatchEvent_objects)
          (live_events primary_team MatchEvent_objects) (roster_players primary_team Player_objects))
       stats = Inr merged"
    by auto
  with ps show ?thesis by blast
qed

section \<open>Claims about the merged output\<close>

lemma round_date_key_mono:
  assumes "extract_round_number R (me_round a) \<noteq> Some 0"
    and "extract_round_number R (me_round b) \<noteq> Some 0"
    and "match_sort_key R a \<le> match_sort_key R b"
  shows "round_date_key R a \<le> round_date_key R b"
  using assms
  by (cases "extract_round_number R (me_round a)"; cases "extract_round_number R (me_round b)")
     (auto simp: match_sort_key_def round_date_key_def less_eq_prod_def less_prod_def)

text \<open>
  C9, amended: in every per-player output in which no match has the round number 0,
  the list of matches is sorted by round: the matches whose round has a number first,
  by increasing number, then the matches without number; any two matches of the same
  round (or both without number) are in the order of their ISO dates.
\<close>

theorem C9_matches_sorted_by_round_then_date:
  assumes "compute_player_dashboard R primary_team MatchEvent_objects Player_objects roster_cache
             = Inr result"
    and "merged \<in> set result"
    and "\<forall>match_entry \<in> set (out_matches merged).
           extract_round_number R (me_round match_entry) \<noteq> Some 0"
  shows "sorted (map (round_date_key R) (out_matches merged))
         \<and> sorted_wrt (\<lambda>a b. extract_round_number R (me_round a) = extract_round_number R (me_round b)
                            \<longrightarrow> snd (snd (round_date_key R a)) \<le> snd (snd (round_date_key R b)))
              (out_matches merged)"
proof -
  from compute_player_dashboard_member [OF assms(1,2)] obtain leftover stats where
    "merge_stats R roster_cache leftover stats = Inr merged"
    by blast
  then have "out_matches merged = sorted_matches R stats"
    by (rule merge_stats_out)
  then have "sorted (map (match_sort_key R) (out_matches merged))"
    by (simp add: sorted_matches_def)
  then have "sorted_wrt (\<lambda>a b. match_sort_key R a \<le> match_sort_key R b) (out_matches merged)"
    by (simp add: sorted_map)
  then have by_key: "sorted_wrt (\<lambda>a b. round_date_key R a \<le> round_date_key R b) (out_matches merged)"
    by (rule sorted_wrt_mono_rel [rotated]) (use assms(3) in \<open>auto intro: round_date_key_mono\<close>)
  then have "sorted_wrt (\<lambda>a b. extract_round_number R (me_round a) = extract_round_number R (me_round b)
                            \<longrightarrow> snd (snd (round_date_key R a)) \<le> snd (snd (round_date_key R b)))
              (out_matches merged)"
    by (rule sorted_wrt_mono_rel [rotated])
       (auto simp: round_date_key_def less_eq_prod_def split: option.splits)
  with by_key show ?thesis by (simp add: sorted_map)
qed

section \<open>Facts about the rates\<close>

lemma round_half_even_cases: "round_half_even x = \<lfloor>x\<rfloor> \<or> round_half_even x = \<lfloor>x\<rfloor> + 1 \<and> of_int \<lfloor>x\<rfloor> < x"
  by (auto simp: round_half_even_def Let_def)

lemma round_half_even_nonneg: "0 \<le> x \<Longrightarrow> 0 \<le> round_half_even x"
  using round_half_even_cases [of x] by auto

lemma round_half_even_le: "x \<le> of_int n \<Longrightarrow> round_half_even x \<le> n"
proof -
  assume le: "x \<le> of_int n"
  then have f: "\<lfloor>x\<rfloor> \<le> n" by (simp add: floor_le_iff)
  from round_half_even_cases [of x] show ?thesis
  proof
    assume "round_half_even x = \<lfloor>x\<rfloor>"
    with f show ?thesis by simp
  next
    assume up: "round_half_even x = \<lfloor>x\<rfloor> + 1 \<and> of_int \<lfloor>x\<rfloor> < x"
    with le have "(of_int \<lfloor>x\<rfloor> :: rat) < of_int n" by simp
    then have "\<lfloor>x\<rfloor> < n" by simp
    with up show ?thesis by simp
  qed
qed

lemma percentage_total: "\<exists>r. percentage R part whole = Inr r"
  by (simp add: percentage_def py_truediv_def)

lemma percentage_zero: "percentage R part 0 = Inr 0"
  by (simp add: percentage_def)

lemma percentage_range:
  assumes m: "mono (to_double R)"
    and z: "to_double R 0 = 0" and o: "to_double R 1 = 1" and h: "to_double R 100 = 100"
    and lo: "0 \<le> part" and hi: "part \<le> whole"
    and r: "percentage R part whole = Inr r"
  shows "0 \<le> r \<and> r \<le> 100"
proof (cases "whole = 0")
  case True
  with r show ?thesis by (simp add: percentage_def)
next
  case False
  with lo hi have pos: "0 < whole" by simp
  define q where "q = to_double R (of_int part / of_int whole)"
  define x where "x = to_double R (q * 100)"
  from lo pos have "(0::rat) \<le> of_int part / of_int whole" by simp
  from monoD [OF m this] z have q0: "0 \<le> q" by (simp add: q_def)
  from hi pos have "(of_int part :: rat) / of_int whole \<le> 1" by simp
  from monoD [OF m this] o have q1: "q \<le> 1" by (simp add: q_def)
  from q0 have "(0::rat) \<le> q * 100" by simp
  from monoD [OF m this] z have x0: "0 \<le> x" by (simp add: x_def)
  from q1 have "q * 100 \<le> 100" by simp
  from monoD [OF m this] h have x1: "x \<le> 100" by (simp add: x_def)
  from x0 have "0 \<le> x * 10" by simp
  then have n0: "0 \<le> round_half_even (x * 10)" by (rule round_half_even_nonneg)
  from x1 have "x * 10 \<le> of_int 1000" by simp
  then have n1: "round_half_even (x * 10) \<le> 1000" by (rule round_half_even_le)
  from n0 have "(0::rat) \<le> of_int (round_half_even (x * 10)) / 10" by simp
  from monoD [OF m this] z have r0: "0 \<le> to_double R (of_int (round_half_even (x * 10)) / 10)"
    by simp
  from n1 have "(of_int (round_half_even (x * 10)) :: rat) \<le> 1000" by linarith
  then have "(of_int (round_half_even (x * 10)) :: rat) / 10 \<le> 100" by simp
  from monoD [OF m this] h have r1: "to_double R (of_int (round_half_even (x * 10)) / 10) \<le> 100"
    by simp
  from False r have "r = to_double R (of_int (round_half_even (x * 10)) / 10)"
    by (simp add: percentage_def py_truediv_def py_round1_def py_times100_def x_def q_def)
  with r0 r1 show ?thesis by simp
qed

section \<open>Facts about the loop over the timelines and the players without events\<close>

lemma timeline_frame_refl: "timeline_frame stats stats"
  unfolding timeline_frame_def
  by (rule exI [of _ "minutes stats"], rule exI [of _ "pj stats"], rule exI [of _ "pt stats"],
      rule exI [of _ "pc stats"]) simp

lemma timeline_frame_trans:
  assumes "timeline_frame a b" "timeline_frame b c"
  shows "timeline_frame a c"
proof -
  from assms obtain m j t k m' j' t' k' where
    "b = a\<lparr>minutes := m, pj := j, pt := t, pc := k\<rparr>"
    "c = b\<lparr>minutes := m', pj := j', pt := t', pc := k'\<rparr>"
    unfolding timeline_frame_def by blast
  then have "c = a\<lparr>minutes := m', pj := j', pt := t', pc := k'\<rparr>" by simp
  then show ?thesis unfolding timeline_frame_def by blast
qed

lemma timeline_frame_apply_timeline: "timeline_frame stats (apply_timeline match_end timeline stats)"
  unfolding timeline_frame_def
  by (rule exI [of _ "minutes (apply_timeline match_end timeline stats)"],
      rule exI [of _ "pj (apply_timeline match_end timeline stats)"],
      rule exI [of _ "pt (apply_timeline match_end timeline stats)"],
      rule exI [of _ "pc stats"])
     (simp add: apply_timeline_def Let_def split: prod.splits)

lemma timeline_frame_pc: "timeline_frame stats (stats\<lparr>pc := c\<rparr>)"
  unfolding timeline_frame_def
  by (rule exI [of _ "minutes stats"], rule exI [of _ "pj stats"], rule exI [of _ "pt stats"],
      rule exI [of _ c]) simp

lemma timeline_frame_foldl:
  "timeline_frame stats
     (foldl (\<lambda>stats (match_id, timeline).
               apply_timeline (get_or_0 match_end_minutes match_id) timeline stats) stats items)"
proof (induction items arbitrary: stats)
  case Nil
  show ?case by (simp add: timeline_frame_refl)
next
  case (Cons item items)
  obtain match_id timeline where item: "item = (match_id, timeline)" by (cases item)
  have "timeline_frame stats (apply_timeline (get_or_0 match_end_minutes match_id) timeline stats)"
    by (rule timeline_frame_apply_timeline)
  from timeline_frame_trans [OF this Cons.IH] item show ?case by simp
qed

lemma timeline_frame_apply_timelines:
  "timeline_frame stats (apply_timelines match_end_minutes of_player stats)"
  unfolding apply_timelines_def Let_def
  by (rule timeline_frame_trans [OF timeline_frame_foldl timeline_frame_pc])

lemma apply_player_timelines_member:
  assumes "(key, stats') \<in> set (apply_player_timelines match_end_minutes player_stats item)"
  shows "\<exists>stats. (key, stats) \<in> set player_stats \<and> timeline_frame stats stats'"
proof (cases "map_of player_stats (fst item)")
  case None
  with assms show ?thesis
    by (auto simp: apply_player_timelines_def intro: timeline_frame_refl)
next
  case (Some stats)
  from Some have mem: "(fst item, stats) \<in> set player_stats" by (rule map_of_SomeD)
  from assms Some have
    "(key, stats') \<in> set (AList.update (fst item)
                            (apply_timelines match_end_minutes (snd item) stats) player_stats)"
    by (simp add: apply_player_timelines_def)
  from in_set_updateD [OF this] show ?thesis
  proof
    assume "(key, stats') = (fst item, apply_timelines match_end_minutes (snd item) stats)"
    with mem timeline_frame_apply_timelines [of stats match_end_minutes "snd item"]
    show ?thesis by auto
  next
    assume "(key, stats') \<in> set player_stats"
    then show ?thesis by (auto intro: timeline_frame_refl)
  qed
qed

lemma foldl_apply_player_timelines_member:
  "(key, stats') \<in> set (foldl (apply_player_timelines match_end_minutes) player_stats items) \<Longrightarrow>
   \<exists>stats. (key, stats) \<in> set player_stats \<and> timeline_frame stats stats'"
proof (induction items arbitrary: player_stats)
  case Nil
  then show ?case by (auto intro: timeline_frame_refl)
next
  case (Cons item items)
  from Cons.IH [of "apply_player_timelines match_end_minutes player_stats item"] Cons.prems
  obtain middle where
    m: "(key, middle) \<in> set (apply_player_timelines match_end_minutes player_stats item)"
    and f: "timeline_frame middle stats'"
    by auto
  from apply_player_timelines_member [OF m] obtain stats where
    "(key, stats) \<in> set player_stats" "timeline_frame stats middle"
    by blast
  with f show ?case by (blast intro: timeline_frame_trans)
qed

lemma reconstructed_stats_member:
  assumes "reconstructed_stats R primary_team MatchEvent_objects roster_cache = Inr player_stats"
    and "(key, stats') \<in> set player_stats"
  shows "\<exists>counted stats.
           fold_events R primary_team roster_cache []
             (confirmed_events primary_team MatchEvent_objects) = Inr counted
           \<and> (key, stats) \<in> set counted \<and> timeline_frame stats stats'"
proof -
  from assms(1) obtain counted where
    c: "fold_events R primary_team roster_cache []
          (confirmed_events primary_team MatchEvent_objects) = Inr counted"
    and p: "player_stats =
          foldl (apply_player_timelines
                   (fst (foldl (live_step R) ([], []) (live_events primary_team MatchEvent_objects))))
            counted
            (snd (foldl (live_step R) ([], []) (live_events primary_team MatchEvent_objects)))"
    by (auto simp: reconstructed_stats_def Let_def split: sum.splits)
  from assms(2) p foldl_apply_player_timelines_member obtain stats where
    "(key, stats) \<in> set counted" "timeline_frame stats stats'"
    by blast
  with c show ?thesis by blast
qed

lemma add_roster_player_member:
  "(key, stats) \<in> set (add_roster_player R roster_cache player_stats player) \<Longrightarrow>
   (key, stats) \<in> set player_stats \<or> stats = roster_only_stats R roster_cache player"
  by (auto simp: add_roster_player_def split: option.splits dest: in_set_updateD)

lemma foldl_add_roster_player_member:
  "(key, stats) \<in> set (foldl (add_roster_player R roster_cache) player_stats players) \<Longrightarrow>
   (key, stats) \<in> set player_stats
   \<or> (\<exists>player \<in> set players. stats = roster_only_stats R roster_cache player)"
proof (induction players arbitrary: player_stats)
  case Nil
  then show ?case by simp
next
  case (Cons player players)
  from Cons.IH [OF Cons.prems [simplified]] show ?case
    by (auto dest: add_roster_player_member)
qed

lemma counters_ok_timeline_frame:
  "counters_ok stats \<Longrightarrow> timeline_frame stats stats' \<Longrightarrow> counters_ok stats'"
  by (auto simp: counters_ok_def timeline_frame_def)

lemma counters_ok_roster_only_stats: "counters_ok (roster_only_stats R roster_cache player)"
  by (simp add: counters_ok_def roster_only_stats_def new_stats_def Let_def)

lemma compute_player_dashboard_counters_ok:
  assumes "compute_player_dashboard R primary_team MatchEvent_objects Player_objects roster_cache
             = Inr result"
    and "merged \<in> set result"
  shows "counters_ok (out_stats merged)"
proof -
  from compute_player_dashboard_member [OF assms] obtain player_stats leftover key stats where
    r: "reconstructed_stats R primary_team MatchEvent_objects roster_cache = Inr player_stats"
    and m: "(key, stats) \<in> set (foldl (add_roster_player R roster_cache) player_stats
                                   (roster_players primary_team Player_objects))"
    and o: "merge_stats R roster_cache leftover stats = Inr merged"
    by blast
  from foldl_add_roster_player_member [OF m] have "counters_ok stats"
  proof
    assume "(key, stats) \<in> set player_stats"
    from reconstructed_stats_member [OF r this] obtain counted before where
      c: "fold_events R primary_team roster_cache []
            (confirmed_events primary_team MatchEvent_objects) = Inr counted"
      and b: "(key, before) \<in> set counted" and f: "timeline_frame before stats"
      by blast
    have "\<forall>(key, stats) \<in> set counted. counters_ok stats"
      by (rule fold_events_invariant [OF c])
         (auto intro: counters_ok_new_stats counters_ok_count_event)
    with b have "counters_ok before" by auto
    from counters_ok_timeline_frame [OF this f] show ?thesis .
  next
    assume "\<exists>player \<in> set (roster_players primary_team Player_objects).
              stats = roster_only_stats R roster_cache player"
    then show ?thesis by (auto intro: counters_ok_roster_only_stats)
  qed
  with merge_stats_out(1) [OF o] show ?thesis by simp
qed

section \<open>No division by zero\<close>

lemma dict_incr_error: "dict_incr key d = Inl err \<Longrightarrow> err \<noteq> ZeroDivisionError"
  by (auto simp: dict_incr_def split: option.splits)

lemma count_zone_error: "count_zone R event stats = Inl err \<Longrightarrow> err \<noteq> ZeroDivisionError"
  by (auto simp: count_zone_def Let_def split: option.splits sum.splits dest: dict_incr_error)

lemma count_tercio_error: "count_tercio R event stats = Inl err \<Longrightarrow> err \<noteq> ZeroDivisionError"
  by (auto simp: count_tercio_def Let_def split: option.splits sum.splits if_splits
           dest: dict_incr_error)

lemma count_position_error:
  "count_position R player event stats = Inl err \<Longrightarrow> err \<noteq> ZeroDivisionError"
  by (auto simp: count_position_def split: option.splits sum.splits dest: dict_incr_error)

lemma match_success_rate_total: "\<exists>rate. match_success_rate R match_entry = Inr rate"
  by (simp add: match_success_rate_def py_truediv_def)

lemma count_match_total: "\<exists>stats'. count_match R primary_team event stats = Inr stats'"
proof (cases "e_match event")
  case None
  then show ?thesis by (simp add: count_match_def)
next
  case (Some match)
  define match_entry where
    "match_entry =
       (let match_entry = (case map_of (matches stats) (m_id match) of
                             Some existing \<Rightarrow> existing
                           | None \<Rightarrow> new_match_entry primary_team match);
            match_entry = match_entry\<lparr>me_actions := me_actions match_entry + 1\<rparr>
        in if result_is_success R (e_result event)
           then match_entry\<lparr>me_successes := me_successes match_entry + 1\<rparr>
           else match_entry)"
  from match_success_rate_total [of R match_entry] obtain rate where
    "match_success_rate R match_entry = Inr rate" by blast
  with Some show ?thesis
    by (simp add: count_match_def Let_def match_entry_def)
qed

lemma count_match_error:
  "count_match R primary_team event stats = Inl err \<Longrightarrow> err \<noteq> ZeroDivisionError"
  using count_match_total [of R primary_team event stats] by auto

lemma count_event_error:
  "count_event R primary_team player event stats = Inl err \<Longrightarrow> err \<noteq> ZeroDivisionError"
  by (auto simp: count_event_def split: sum.splits
           dest: count_zone_error count_tercio_error count_position_error count_match_error)

lemma event_step_error:
  "event_step R primary_team roster_cache player_stats event = Inl err \<Longrightarrow>
   err \<noteq> ZeroDivisionError"
  by (auto simp: event_step_def Let_def split: option.splits sum.splits dest: count_event_error)

lemma fold_events_error:
  "fold_events R primary_team roster_cache player_stats events = Inl err \<Longrightarrow>
   err \<noteq> ZeroDivisionError"
proof (induction events arbitrary: player_stats)
  case Nil
  then show ?case by simp
next
  case (Cons event events)
  then show ?case
    by (auto split: sum.splits dest: event_step_error)
qed

lemma reconstructed_stats_error:
  "reconstructed_stats R primary_team MatchEvent_objects roster_cache = Inl err \<Longrightarrow>
   err \<noteq> ZeroDivisionError"
  by (auto simp: reconstructed_stats_def Let_def split: sum.splits dest: fold_events_error)

lemma tercio_summary_total: "\<exists>summary. tercio_summary R totals total_tercios labels = Inr summary"
proof (induction labels)
  case Nil
  show ?case by simp
next
  case (Cons label labels)
  from percentage_total [of R "get_count totals label" total_tercios] obtain pct where
    "percentage R (get_count totals label) total_tercios = Inr pct" by blast
  with Cons show ?case by auto
qed

lemma merge_stats_error:
  assumes "merge_stats R roster_cache leftover stats = Inl err"
  shows "err \<noteq> ZeroDivisionError"
proof -
  obtain a where a: "percentage R (successes stats) (total_actions stats) = Inr a"
    using percentage_total by blast
  obtain b where b: "percentage R (duels_won stats) (duels_total stats) = Inr b"
    using percentage_total by blast
  obtain c where c: "percentage R (shots_on_target stats) (shot_attempts stats) = Inr c"
    using percentage_total by blast
  obtain d where d: "percentage R (passes_completed stats) (pass_attempts stats) = Inr d"
    using percentage_total by blast
  obtain s where s: "tercio_summary R (tercio_totals stats) (sum_list (map snd (tercio_totals stats)))
                       [u ''Ataque'', u ''Construcci'' @ [243] @ u ''n'', u ''Defensa''] = Inr s"
    using tercio_summary_total by blast
  from assms a b c d s show ?thesis
    by (auto simp: merge_stats_def Let_def dominant_position_def
             split: sum.splits list.splits option.splits)
qed

lemma merge_all_error:
  "merge_all R roster_cache leftover stats_list = Inl err \<Longrightarrow> err \<noteq> ZeroDivisionError"
proof (induction stats_list)
  case Nil
  then show ?case by simp
next
  case (Cons stats rest)
  then show ?case
    by (auto split: sum.splits dest: merge_stats_error)
qed

lemma compute_player_dashboard_error:
  "compute_player_dashboard R primary_team MatchEvent_objects Player_objects roster_cache = Inl err
   \<Longrightarrow> err \<noteq> ZeroDivisionError"
  by (auto simp: compute_player_dashboard_def Let_def split: sum.splits
           dest: reconstructed_stats_error merge_all_error)

section \<open>Claims about the rates\<close>

text \<open>
  C2. For every list of events, the success rate, the duel rate, the shot accuracy and
  the pass accuracy of every player of the output are in the interval from 0 to 100,
  are exactly 0 when the denominator (total actions, total duels, shot attempts, pass
  attempts) is 0, and no division by zero is executed: the function never raises
  \<open>ZeroDivisionError\<close>. The rounding of a quotient to a float is assumed monotone and
  exact on 0, 1 and 100, as the rounding to nearest of binary floating point is.
\<close>

theorem C2_rates_within_0_and_100:
  assumes "mono (to_double R)"
    and "to_double R 0 = 0" and "to_double R 1 = 1" and "to_double R 100 = 100"
  shows "compute_player_dashboard R primary_team MatchEvent_objects Player_objects roster_cache
           \<noteq> Inl ZeroDivisionError
         \<and> (\<forall>result merged.
               compute_player_dashboard R primary_team MatchEvent_objects Player_objects roster_cache
                 = Inr result \<and> merged \<in> set result \<longrightarrow>
               0 \<le> out_success_rate merged \<and> out_success_rate merged \<le> 100
               \<and> (total_actions (out_stats merged) = 0 \<longrightarrow> out_success_rate merged = 0)
               \<and> 0 \<le> out_duel_rate merged \<and> out_duel_rate merged \<le> 100
               \<and> (duels_total (out_stats merged) = 0 \<longrightarrow> out_duel_rate merged = 0)
               \<and> 0 \<le> snd (snd (out_shots merged)) \<and> snd (snd (out_shots merged)) \<le> 100
               \<and> (fst (out_shots merged) = 0 \<longrightarrow> snd (snd (out_shots merged)) = 0)
               \<and> 0 \<le> snd (snd (out_passes merged)) \<and> snd (snd (out_passes merged)) \<le> 100
               \<and> (fst (out_passes merged) = 0 \<longrightarrow> snd (snd (out_passes merged)) = 0))"
proof (intro conjI allI impI)
  show "compute_player_dashboard R primary_team MatchEvent_objects Player_objects roster_cache
          \<noteq> Inl ZeroDivisionError"
    using compute_player_dashboard_error by blast
next
  fix result merged
  assume a: "compute_player_dashboard R primary_team MatchEvent_objects Player_objects roster_cache
               = Inr result \<and> merged \<in> set result"
  then have ok: "counters_ok (out_stats merged)"
    by (auto intro: compute_player_dashboard_counters_ok)
  from a compute_player_dashboard_member obtain leftover stats where
    m: "merge_stats R roster_cache leftover stats = Inr merged"
    by blast
  note out = merge_stats_out [OF m]
  from out(5) obtain shot_accuracy where
    sh: "percentage R (shots_on_target stats) (shot_attempts stats) = Inr shot_accuracy"
    and sh': "out_shots merged = (shot_attempts stats, shots_on_target stats, shot_accuracy)"
    by blast
  from out(6) obtain pass_accuracy where
    pa: "percentage R (passes_completed stats) (pass_attempts stats) = Inr pass_accuracy"
    and pa': "out_passes merged = (pass_attempts stats, passes_completed stats, pass_accuracy)"
    by blast
  from ok out(1) have c: "counters_ok stats" by simp
  from c have r1: "0 \<le> out_success_rate merged \<and> out_success_rate merged \<le> 100"
    by (intro percentage_range [OF assms _ _ out(3)]) (simp_all add: counters_ok_def)
  from c have r2: "0 \<le> out_duel_rate merged \<and> out_duel_rate merged \<le> 100"
    by (intro percentage_range [OF assms _ _ out(4)]) (simp_all add: counters_ok_def)
  from c have r3: "0 \<le> shot_accuracy \<and> shot_accuracy \<le> 100"
    by (intro percentage_range [OF assms _ _ sh]) (simp_all add: counters_ok_def)
  from c have r4: "0 \<le> pass_accuracy \<and> pass_accuracy \<le> 100"
    by (intro percentage_range [OF assms _ _ pa]) (simp_all add: counters_ok_def)
  show "0 \<le> out_success_rate merged" using r1 by simp
  show "out_success_rate merged \<le> 100" using r1 by simp
  show "0 \<le> out_duel_rate merged" using r2 by simp
  show "out_duel_rate merged \<le> 100" using r2 by simp
  show "0 \<le> snd (snd (out_shots merged))" using r3 sh' by simp
  show "snd (snd (out_shots merged)) \<le> 100" using r3 sh' by simp
  show "0 \<le> snd (snd (out_passes merged))" using r4 pa' by simp
  show "snd (snd (out_passes merged)) \<le> 100" using r4 pa' by simp
  show "out_success_rate merged = 0" if "total_actions (out_stats merged) = 0"
    using that out(1) out(3) by (simp add: percentage_zero)
  show "out_duel_rate merged = 0" if "duels_total (out_stats merged) = 0"
    using that out(1) out(4) by (simp add: percentage_zero)
  show "snd (snd (out_shots merged)) = 0" if "fst (out_shots merged) = 0"
    using that sh sh' by (simp add: percentage_zero)
  show "snd (snd (out_passes merged)) = 0" if "fst (out_passes merged) = 0"
    using that pa pa' by (simp add: percentage_zero)
qed

section \<open>Facts about the appearances\<close>

lemma timelines_ok_empty: "timelines_ok []"
  by (simp add: timelines_ok_def)

lemma list_all_update:
  "list_all P al \<Longrightarrow> P (k, v) \<Longrightarrow> list_all P (AList.update k v al)"
  by (induction al) auto

lemma live_step_timelines_ok:
  assumes "timelines_ok (snd state)"
  shows "timelines_ok (snd (live_step R state event))"
proof (cases "e_player event")
  case None
  with assms show ?thesis by (simp add: live_step_def)
next
  case (Some player)
  show ?thesis
  proof (cases "e_match event")
    case None
    with Some assms show ?thesis
      by (simp add: live_step_def Let_def split: option.splits prod.splits)
  next
    case match: (Some match)
    define of_player where
      "of_player = (case map_of (snd state) (p_id player) of None \<Rightarrow> [] | Some existing \<Rightarrow> existing)"
    define timeline where
      "timeline = (case map_of of_player (m_id match) of
                     None \<Rightarrow> \<lparr>entry = None, exit = None, has_event = False\<rparr>
                   | Some existing \<Rightarrow> existing)"
    have step: "snd (live_step R state event) =
        AList.update (p_id player)
          (AList.update (m_id match) (record_timeline R event timeline) of_player) (snd state)"
      using Some match
      by (simp add: live_step_def Let_def of_player_def timeline_def split: option.splits)
    have old: "distinct (map fst of_player) \<and> list_all (\<lambda>entry. has_event (snd entry)) of_player"
    proof (cases "map_of (snd state) (p_id player)")
      case None
      then show ?thesis by (simp add: of_player_def)
    next
      case (Some existing)
      then have "(p_id player, existing) \<in> set (snd state)" by (rule map_of_SomeD)
      with assms Some show ?thesis
        by (auto simp: timelines_ok_def of_player_def list_all_iff)
    qed
    then have new:
      "distinct (map fst (AList.update (m_id match) (record_timeline R event timeline) of_player))
       \<and> list_all (\<lambda>entry. has_event (snd entry))
            (AList.update (m_id match) (record_timeline R event timeline) of_player)"
      by (simp add: distinct_update list_all_update record_timeline_has_event)
    from assms have "distinct (map fst (snd state))"
      and "list_all (\<lambda>item. distinct (map fst (snd item))
                          \<and> list_all (\<lambda>entry. has_event (snd entry)) (snd item)) (snd state)"
      by (simp_all add: timelines_ok_def)
    with new show ?thesis
      unfolding step timelines_ok_def
      by (simp add: distinct_update list_all_update)
  qed
qed

lemma foldl_live_step_timelines_ok:
  "timelines_ok (snd state) \<Longrightarrow> timelines_ok (snd (foldl (live_step R) state events))"
proof (induction events arbitrary: state)
  case Nil
  then show ?case by simp
next
  case (Cons event events)
  from Cons.IH [OF live_step_timelines_ok [OF Cons.prems]] show ?case by simp
qed

lemma foldl_live_step_recorded:
  "(timeline_of (snd (foldl (live_step R) state events)) pid mid \<noteq> None) =
     (timeline_of (snd state) pid mid \<noteq> None \<or> (\<exists>event \<in> set events. concerns pid mid event))"
proof (induction events arbitrary: state)
  case Nil
  show ?case by simp
next
  case (Cons event events)
  have "(timeline_of (snd (live_step R state event)) pid mid \<noteq> None) =
          (timeline_of (snd state) pid mid \<noteq> None \<or> concerns pid mid event)"
    by (simp add: live_step_timeline_of)
  with Cons.IH [of "live_step R state event"] show ?case by auto
qed

lemma pj_foldl_apply_timeline:
  "pj (foldl (\<lambda>stats (match_id, timeline).
               apply_timeline (get_or_0 match_end_minutes match_id) timeline stats) stats of_player)
   = pj stats + int (length (filter (\<lambda>entry. has_event (snd entry)) of_player))"
proof (induction of_player arbitrary: stats)
  case Nil
  show ?case by simp
next
  case (Cons item of_player)
  obtain match_id timeline where item: "item = (match_id, timeline)" by (cases item)
  from Cons.IH [of "apply_timeline (get_or_0 match_end_minutes match_id) timeline stats"] item
  show ?case by (simp add: pj_apply_timeline)
qed

lemma pj_apply_timelines:
  "list_all (\<lambda>entry. has_event (snd entry)) of_player \<Longrightarrow>
   pj (apply_timelines match_end_minutes of_player stats) = pj stats + int (length of_player)"
  by (simp add: apply_timelines_def Let_def pj_foldl_apply_timeline list_all_iff)

lemma map_of_apply_player_timelines:
  "map_of (apply_player_timelines match_end_minutes player_stats item) key =
     (if key = fst item
      then (case map_of player_stats key of
              None \<Rightarrow> None
            | Some stats \<Rightarrow> Some (apply_timelines match_end_minutes (snd item) stats))
      else map_of player_stats key)"
  by (simp add: apply_player_timelines_def update_conv' split: option.splits)

lemma map_of_foldl_apply_player_timelines:
  "distinct (map fst items) \<Longrightarrow>
   map_of (foldl (apply_player_timelines match_end_minutes) player_stats items) key =
     (case map_of items key of
        None \<Rightarrow> map_of player_stats key
      | Some of_player \<Rightarrow>
          (case map_of player_stats key of
             None \<Rightarrow> None
           | Some stats \<Rightarrow> Some (apply_timelines match_end_minutes of_player stats)))"
proof (induction items arbitrary: player_stats)
  case Nil
  show ?case by simp
next
  case (Cons item items)
  from Cons.prems have d: "distinct (map fst items)" and n: "fst item \<notin> fst ` set items"
    by simp_all
  from n have none: "map_of items (fst item) = None"
    by (simp add: map_of_eq_None_iff)
  obtain pid of_player where item: "item = (pid, of_player)" by (cases item)
  show ?case
  proof (cases "key = pid")
    case True
    with Cons.IH [OF d, of "apply_player_timelines match_end_minutes player_stats item"] none item
    show ?thesis
      by (simp add: map_of_apply_player_timelines split: option.splits)
  next
    case False
    with Cons.IH [OF d, of "apply_player_timelines match_end_minutes player_stats item"] item
    show ?thesis
      by (simp add: map_of_apply_player_timelines split: option.splits)
  qed
qed

lemma apply_player_timelines_distinct:
  "distinct (map fst player_stats) \<Longrightarrow>
   distinct (map fst (apply_player_timelines match_end_minutes player_stats item))"
  by (simp add: apply_player_timelines_def distinct_update split: option.splits)

lemma foldl_apply_player_timelines_distinct:
  "distinct (map fst player_stats) \<Longrightarrow>
   distinct (map fst (foldl (apply_player_timelines match_end_minutes) player_stats items))"
proof (induction items arbitrary: player_stats)
  case Nil
  then show ?case by simp
next
  case (Cons item items)
  from Cons.IH [OF apply_player_timelines_distinct [OF Cons.prems]] show ?case by simp
qed

text \<open>
  The matches of a player that have a timeline are the matches in which a live event
  concerns the player, each counted once.
\<close>

lemma recorded_matches_card:
  assumes ok: "timelines_ok player_match_timeline"
    and rec: "\<And>mid. (timeline_of player_match_timeline pid mid \<noteq> None) = Q mid"
    and some: "map_of player_match_timeline pid = Some of_player"
  shows "int (length of_player) = int (card {mid. Q mid})
         \<and> list_all (\<lambda>entry. has_event (snd entry)) of_player"
proof -
  from some have mem: "(pid, of_player) \<in> set player_match_timeline" by (rule map_of_SomeD)
  with ok have d: "distinct (map fst of_player)"
    and h: "list_all (\<lambda>entry. has_event (snd entry)) of_player"
    by (auto simp: timelines_ok_def list_all_iff)
  have "{mid. Q mid} = {mid. map_of of_player mid \<noteq> None}"
    using rec some by (simp add: timeline_of_def)
  also have "\<dots> = fst ` set of_player"
    by (auto simp: map_of_eq_None_iff)
  also have "\<dots> = set (map fst of_player)" by simp
  finally have "card {mid. Q mid} = length (map fst of_player)"
    using d by (simp only: distinct_card)
  with h show ?thesis by simp
qed

lemma count_event_fields:
  assumes "count_event R primary_team player event stats = Inr stats'"
  shows "pj stats' = pj stats" and "player_id stats' = player_id stats" and "has_events stats'"
proof -
  from count_event_frame [OF assms] obtain zc tc tt pc' entries where
    eq: "stats' = (count_shots_passes R event
                     ((count_actions R event stats)
                        \<lparr>zone_counts := zc, tercio_counts := tc, tercio_totals := tt,
                          position_counts := pc'\<rparr>))
                  \<lparr>matches := entries\<rparr>"
    by blast
  show "pj stats' = pj stats"
    by (simp add: eq count_shots_passes_fields count_actions_fields)
  show "player_id stats' = player_id stats"
    by (simp add: eq count_shots_passes_fields count_actions_fields)
  show "has_events stats'"
    by (simp add: eq count_shots_passes_fields count_actions_fields)
qed

lemma counted_entries:
  assumes "fold_events R primary_team roster_cache [] events = Inr counted"
    and "(key, stats) \<in> set counted"
  shows "player_id stats = key \<and> has_events stats
         \<and> (\<exists>event \<in> set events. \<exists>player.
               e_player event = Some player \<and> p_id player = key
               \<and> pj stats = baseline_pj R roster_cache player)"
proof -
  have "\<forall>(key, stats) \<in> set counted.
          player_id stats = key \<and> has_events stats
          \<and> (\<exists>event \<in> set events. \<exists>player.
                e_player event = Some player \<and> p_id player = key
                \<and> pj stats = baseline_pj R roster_cache player)"
  proof (rule fold_events_invariant [OF assms(1)])
    show "\<forall>(key, stats) \<in> set []. player_id stats = key \<and> has_events stats
            \<and> (\<exists>event \<in> set events. \<exists>player.
                  e_player event = Some player \<and> p_id player = key
                  \<and> pj stats = baseline_pj R roster_cache player)"
      by simp
  next
    fix stats stats' player event
    assume ev: "event \<in> set events" and pl: "e_player event = Some player"
      and before: "player_id stats = p_id player \<and> has_events stats
            \<and> (\<exists>event \<in> set events. \<exists>player'.
                  e_player event = Some player' \<and> p_id player' = p_id player
                  \<and> pj stats = baseline_pj R roster_cache player')
          \<or> stats = new_stats player (find_roster_entry R (p_name player) roster_cache)"
      and count: "count_event R primary_team player event stats = Inr stats'"
    note fields = count_event_fields [OF count]
    from before have
      "player_id stats = p_id player
       \<and> (\<exists>event \<in> set events. \<exists>player'.
             e_player event = Some player' \<and> p_id player' = p_id player
             \<and> pj stats = baseline_pj R roster_cache player')"
    proof
      assume "player_id stats = p_id player \<and> has_events stats
            \<and> (\<exists>event \<in> set events. \<exists>player'.
                  e_player event = Some player' \<and> p_id player' = p_id player
                  \<and> pj stats = baseline_pj R roster_cache player')"
      then show ?thesis by simp
    next
      assume new: "stats = new_stats player (find_roster_entry R (p_name player) roster_cache)"
      then have "player_id stats = p_id player" "pj stats = baseline_pj R roster_cache player"
        by (simp_all add: new_stats_def baseline_pj_def split: option.splits)
      with ev pl show ?thesis by blast
    qed
    with fields show "player_id stats' = p_id player \<and> has_events stats'
            \<and> (\<exists>event \<in> set events. \<exists>player'.
                  e_player event = Some player' \<and> p_id player' = p_id player
                  \<and> pj stats' = baseline_pj R roster_cache player')"
      by simp
  qed
  with assms(2) show ?thesis by auto
qed

lemma has_events_roster_only_stats: "\<not> has_events (roster_only_stats R roster_cache player)"
  by (simp add: roster_only_stats_def new_stats_def Let_def)

lemma timeline_frame_player_id: "timeline_frame stats stats' \<Longrightarrow> player_id stats' = player_id stats"
  by (auto simp: timeline_frame_def)

section \<open>Claims about the appearances\<close>

text \<open>
  C5, amended: for every player of the output who has events, the count of matches
  played is the count of the roster entry found for the player's name (0 when there is
  none) plus the number of matches in which an event of the player was recorded on the
  touch field and finalised (\<open>system = 'touch-field-final'\<close>). A match in which the
  player only has events of another provenance adds nothing.
\<close>

theorem C5_appearances_count_touch_field_matches:
  assumes "compute_player_dashboard R primary_team MatchEvent_objects Player_objects roster_cache
             = Inr result"
    and "merged \<in> set result"
    and "has_events (out_stats merged)"
  shows "\<exists>event \<in> set (confirmed_events primary_team MatchEvent_objects). \<exists>player.
           e_player event = Some player
           \<and> p_id player = player_id (out_stats merged)
           \<and> pj (out_stats merged)
               = baseline_pj R roster_cache player
                 + int (card {mid. \<exists>live \<in> set (live_events primary_team MatchEvent_objects).
                                     concerns (player_id (out_stats merged)) mid live})"
proof -
  define state where
    "state = foldl (live_step R) ([], []) (live_events primary_team MatchEvent_objects)"
  from compute_player_dashboard_member [OF assms(1,2)]
  obtain player_stats leftover key stats where
    r: "reconstructed_stats R primary_team MatchEvent_objects roster_cache = Inr player_stats"
    and m: "(key, stats) \<in> set (foldl (add_roster_player R roster_cache) player_stats
                                   (roster_players primary_team Player_objects))"
    and o: "merge_stats R roster_cache leftover stats = Inr merged"
    by blast
  from merge_stats_out(1) [OF o] have out: "out_stats merged = stats" .
  with assms(3) have he: "has_events stats" by simp
  from foldl_add_roster_player_member [OF m] he have mem: "(key, stats) \<in> set player_stats"
    by (auto simp: has_events_roster_only_stats)
  from r obtain counted where
    c: "fold_events R primary_team roster_cache []
          (confirmed_events primary_team MatchEvent_objects) = Inr counted"
    and p: "player_stats = foldl (apply_player_timelines (fst state)) counted (snd state)"
    by (auto simp: reconstructed_stats_def Let_def state_def split: sum.splits)
  have ok: "timelines_ok (snd state)"
    unfolding state_def by (rule foldl_live_step_timelines_ok) (simp add: timelines_ok_empty)
  then have dt: "distinct (map fst (snd state))" by (simp add: timelines_ok_def)
  have rec: "\<And>mid. (timeline_of (snd state) key mid \<noteq> None)
                 = (\<exists>live \<in> set (live_events primary_team MatchEvent_objects). concerns key mid live)"
  proof -
    fix mid
    have "timeline_of (snd (([], []) :: (nat \<times> nat) list \<times> timelines)) key mid = None"
      by (simp add: timeline_of_def)
    with foldl_live_step_recorded
           [of R "([], [])" "live_events primary_team MatchEvent_objects" key mid]
    show "(timeline_of (snd state) key mid \<noteq> None)
            = (\<exists>live \<in> set (live_events primary_team MatchEvent_objects). concerns key mid live)"
      unfolding state_def by simp
  qed
  have "distinct (map fst counted)"
    using fold_events_distinct [OF c] by simp
  then have "distinct (map fst player_stats)"
    unfolding p by (rule foldl_apply_player_timelines_distinct)
  with mem have "map_of player_stats key = Some stats" by simp
  with map_of_foldl_apply_player_timelines [OF dt, of "fst state" counted key] p
  have cases: "(case map_of (snd state) key of
                  None \<Rightarrow> map_of counted key
                | Some of_player \<Rightarrow>
                    (case map_of counted key of
                       None \<Rightarrow> None
                     | Some before \<Rightarrow> Some (apply_timelines (fst state) of_player before)))
               = Some stats"
    by simp
  have "\<exists>before. (key, before) \<in> set counted
          \<and> player_id stats = player_id before
          \<and> pj stats = pj before
              + int (card {mid. \<exists>live \<in> set (live_events primary_team MatchEvent_objects).
                                  concerns key mid live})"
  proof (cases "map_of (snd state) key")
    case None
    with cases have b: "map_of counted key = Some stats" by simp
    from None have "\<And>mid. timeline_of (snd state) key mid = None"
      by (simp add: timeline_of_def)
    with rec have "{mid. \<exists>live \<in> set (live_events primary_team MatchEvent_objects).
                      concerns key mid live} = {}"
      by auto
    with map_of_SomeD [OF b] show ?thesis by auto
  next
    case (Some of_player)
    with cases obtain before where
      b: "map_of counted key = Some before"
      and s: "stats = apply_timelines (fst state) of_player before"
      by (auto split: option.splits)
    from recorded_matches_card [OF ok rec Some]
    have len: "int (length of_player)
                 = int (card {mid. \<exists>live \<in> set (live_events primary_team MatchEvent_objects).
                                     concerns key mid live})"
      and all: "list_all (\<lambda>entry. has_event (snd entry)) of_player"
      by simp_all
    from pj_apply_timelines [OF all, of "fst state" before] s len
    have "pj stats = pj before
            + int (card {mid. \<exists>live \<in> set (live_events primary_team MatchEvent_objects).
                                concerns key mid live})"
      by simp
    moreover have "player_id stats = player_id before"
      unfolding s by (rule timeline_frame_player_id [OF timeline_frame_apply_timelines])
    ultimately show ?thesis using map_of_SomeD [OF b] by auto
  qed
  then obtain before where
    b: "(key, before) \<in> set counted"
    and id: "player_id stats = player_id before"
    and pj: "pj stats = pj before
              + int (card {mid. \<exists>live \<in> set (live_events primary_team MatchEvent_objects).
                                  concerns key mid live})"
    by blast
  from counted_entries [OF c b] obtain event player where
    "player_id before = key" "event \<in> set (confirmed_events primary_team MatchEvent_objects)"
    "e_player event = Some player" "p_id player = key"
    "pj before = baseline_pj R roster_cache player"
    by blast
  with id pj out show ?thesis by auto
qed

section \<open>Facts about the roster\<close>

lemma store_row_keys:
  assumes "\<forall>key found. map_of roster key = Some found \<longrightarrow> normalize_player_name R (r_name found) = key"
  shows "\<forall>key found. map_of (store_row R roster row) key = Some found
           \<longrightarrow> normalize_player_name R (r_name found) = key"
  using assms by (auto simp: store_row_def update_conv')

lemma foldl_store_row_keys:
  "\<forall>key found. map_of roster key = Some found \<longrightarrow> normalize_player_name R (r_name found) = key \<Longrightarrow>
   \<forall>key found. map_of (foldl (store_row R) roster rows) key = Some found
     \<longrightarrow> normalize_player_name R (r_name found) = key"
proof (induction rows arbitrary: roster)
  case Nil
  then show ?case by simp
next
  case (Cons row rows)
  from Cons.IH [OF store_row_keys [OF Cons.prems]] show ?case by simp
qed

lemma load_player_roster_stats_key:
  "map_of (load_player_roster_stats R rows) key = Some found \<Longrightarrow>
   normalize_player_name R (r_name found) = key"
  using foldl_store_row_keys [of "[]" R rows] by (simp add: load_player_roster_stats_def)

text \<open>
  Every alias of \<open>ALIAS_MAP\<close> is its own normal form, and its target is not empty and
  is not itself redirected by the table.
\<close>

lemma ALIAS_MAP_keys_normal:
  "list_all (\<lambda>(alias, target). normalize_player_name R alias = alias) ALIAS_MAP"
  by (simp add: ALIAS_MAP_def normalize_player_name_def slugify_def nfkd_def nfkd_run_def
        strip_hyphens_def ascii_lower_def ascii_word_def ascii_space_def u_def Let_def)

lemma ALIAS_MAP_targets_final:
  "list_all (\<lambda>(alias, target).
       target \<noteq> [] \<and> map_of ALIAS_MAP alias = Some target
       \<and> (case map_of ALIAS_MAP target of None \<Rightarrow> target | Some other \<Rightarrow> other) = target)
     ALIAS_MAP"
  by (simp add: ALIAS_MAP_def u_def)

lemma alias_facts:
  assumes "(alias, target) \<in> set ALIAS_MAP"
  shows "normalize_player_name R alias = alias"
    and "target \<noteq> []"
    and "map_of ALIAS_MAP alias = Some target"
    and "(case map_of ALIAS_MAP target of None \<Rightarrow> target | Some other \<Rightarrow> other) = target"
  using assms ALIAS_MAP_keys_normal [of R] ALIAS_MAP_targets_final
  by (auto simp: list_all_iff)

section \<open>Claims about the roster\<close>

text \<open>
  C8. The resolution of a name is a function of the name and the roster alone, so
  resolving a name twice gives the same entry. For every roster that
  \<open>load_player_roster_stats\<close> builds and every alias of the alias table whose target is a
  key of the roster, the alias (and any name with the alias as normal form) and the
  display name of the target's entry resolve to that same entry.
\<close>

theorem C8_alias_and_target_resolve_alike:
  assumes "(alias, target) \<in> set ALIAS_MAP"
    and "normalize_player_name R alias_name = alias"
    and "roster = load_player_roster_stats R rows"
    and "map_of roster target = Some found"
  shows "find_roster_entry R alias roster = Some found
         \<and> find_roster_entry R alias_name roster = Some found
         \<and> find_roster_entry R (r_name found) roster = Some found"
proof -
  note facts = alias_facts [OF assms(1)]
  have key: "canonical_roster_key R alias = target"
    by (simp add: canonical_roster_key_def Let_def facts(1,3))
  have key': "canonical_roster_key R alias_name = target"
    by (simp add: canonical_roster_key_def Let_def assms(2) facts(3))
  from assms(3,4) have "normalize_player_name R (r_name found) = target"
    by (simp add: load_player_roster_stats_key)
  then have key'': "canonical_roster_key R (r_name found) = target"
    by (simp add: canonical_roster_key_def Let_def facts(4))
  from key key' key'' facts(2) assms(4) show ?thesis
    by (simp add: find_roster_entry_def Let_def)
qed

section \<open>The order of iteration of the sets\<close>

text \<open>
  The hash of the strings enters the functions only through the order in which the
  keyword sets are iterated, and every loop over a keyword set only asks whether some
  keyword is found. So no function of the dashboard depends on the hash: each of the
  facts below says that a function is the same under any other hash.
\<close>

named_theorems hash_free

lemma isspace_hash_free [hash_free]: "isspace (R\<lparr>str_hash := h\<rparr>) = isspace R"
  by (intro ext) (simp add: isspace_def cong: if_cong)

lemma isalnum_hash_free [hash_free]: "isalnum (R\<lparr>str_hash := h\<rparr>) = isalnum R"
  by (intro ext) (simp add: isalnum_def cong: if_cong)

lemma isdecimal_hash_free [hash_free]: "isdecimal (R\<lparr>str_hash := h\<rparr>) = isdecimal R"
  by (intro ext) (simp add: isdecimal_def cong: if_cong)

lemma digit_hash_free [hash_free]: "digit (R\<lparr>str_hash := h\<rparr>) = digit R"
  by (intro ext) (simp add: digit_def cong: if_cong)

lemma lower_from_hash_free: "lower_from (R\<lparr>str_hash := h\<rparr>) seen s = lower_from R seen s"
  by (induction s arbitrary: seen) simp_all

lemma lower_hash_free [hash_free]: "lower (R\<lparr>str_hash := h\<rparr>) = lower R"
  by (intro ext) (simp only: lower_def lower_from_hash_free)

lemma strip_hash_free [hash_free]: "strip (R\<lparr>str_hash := h\<rparr>) = strip R"
  by (intro ext) (simp only: strip_def hash_free)

lemma nfkd_from_hash_free: "nfkd_from (R\<lparr>str_hash := h\<rparr>) run s = nfkd_from R run s"
  by (induction s arbitrary: run) (simp_all add: nfkd_run_def)

lemma nfkd_hash_free [hash_free]: "nfkd (R\<lparr>str_hash := h\<rparr>) = nfkd R"
  by (intro ext) (simp only: nfkd_def nfkd_from_hash_free)

lemma py_truediv_hash_free [hash_free]: "py_truediv (R\<lparr>str_hash := h\<rparr>) = py_truediv R"
  by (intro ext) (simp add: py_truediv_def cong: if_cong)

lemma py_times100_hash_free [hash_free]: "py_times100 (R\<lparr>str_hash := h\<rparr>) = py_times100 R"
  by (intro ext) (simp add: py_times100_def cong: if_cong)

lemma py_round1_hash_free [hash_free]: "py_round1 (R\<lparr>str_hash := h\<rparr>) = py_round1 R"
  by (intro ext) (simp add: py_round1_def cong: if_cong)

lemma normalize_label_hash_free [hash_free]:
  "normalize_label (R\<lparr>str_hash := h\<rparr>) = normalize_label R"
  by (intro ext) (simp only: normalize_label_def hash_free)

lemma contains_keyword_hash_free [hash_free]:
  "contains_keyword (R\<lparr>str_hash := h\<rparr>) = contains_keyword R"
  by (intro ext) (simp only: contains_keyword_iff hash_free)

lemma result_is_success_hash_free [hash_free]:
  "result_is_success (R\<lparr>str_hash := h\<rparr>) = result_is_success R"
  by (intro ext) (simp only: result_is_success_def hash_free)

lemma is_goal_event_hash_free [hash_free]: "is_goal_event (R\<lparr>str_hash := h\<rparr>) = is_goal_event R"
  by (intro ext) (simp only: is_goal_event_def hash_free)

lemma is_assist_event_hash_free [hash_free]:
  "is_assist_event (R\<lparr>str_hash := h\<rparr>) = is_assist_event R"
  by (intro ext) (simp only: is_assist_event_def hash_free)

lemma is_yellow_card_event_hash_free [hash_free]:
  "is_yellow_card_event (R\<lparr>str_hash := h\<rparr>) = is_yellow_card_event R"
  by (intro ext) (simp only: is_yellow_card_event_def hash_free)

lemma is_red_card_event_hash_free [hash_free]:
  "is_red_card_event (R\<lparr>str_hash := h\<rparr>) = is_red_card_event R"
  by (intro ext) (simp only: is_red_card_event_def hash_free)

lemma is_substitution_event_hash_free [hash_free]:
  "is_substitution_event (R\<lparr>str_hash := h\<rparr>) = is_substitution_event R"
  by (intro ext) (simp only: is_substitution_event_def hash_free)

lemma is_substitution_entry_hash_free [hash_free]:
  "is_substitution_entry (R\<lparr>str_hash := h\<rparr>) = is_substitution_entry R"
  by (intro ext) (simp only: is_substitution_entry_def hash_free)

lemma is_substitution_exit_hash_free [hash_free]:
  "is_substitution_exit (R\<lparr>str_hash := h\<rparr>) = is_substitution_exit R"
  by (intro ext) (simp only: is_substitution_exit_def hash_free)

lemma extract_round_number_hash_free [hash_free]:
  "extract_round_number (R\<lparr>str_hash := h\<rparr>) = extract_round_number R"
  by (intro ext) (simp only: extract_round_number_def hash_free)

lemma is_duel_event_hash_free [hash_free]: "is_duel_event (R\<lparr>str_hash := h\<rparr>) = is_duel_event R"
  by (intro ext) (simp only: is_duel_event_def any_set_iter hash_free)

lemma duel_result_is_success_hash_free [hash_free]:
  "duel_result_is_success (R\<lparr>str_hash := h\<rparr>) = duel_result_is_success R"
  by (intro ext) (simp only: duel_result_is_success_def any_set_iter hash_free)

lemma categorize_position_hash_free [hash_free]:
  "categorize_position (R\<lparr>str_hash := h\<rparr>) = categorize_position R"
  by (intro ext) (simp only: categorize_position_def hash_free)

lemma map_tercio_hash_free [hash_free]: "map_tercio (R\<lparr>str_hash := h\<rparr>) = map_tercio R"
  by (intro ext) (simp only: map_tercio_def hash_free)

lemma map_zone_label_hash_free [hash_free]: "map_zone_label (R\<lparr>str_hash := h\<rparr>) = map_zone_label R"
  by (intro ext) (simp only: map_zone_label_def hash_free)

lemma slugify_hash_free [hash_free]: "slugify (R\<lparr>str_hash := h\<rparr>) = slugify R"
  by (intro ext) (simp only: slugify_def hash_free)

lemma normalize_player_name_hash_free [hash_free]:
  "normalize_player_name (R\<lparr>str_hash := h\<rparr>) = normalize_player_name R"
  by (intro ext) (simp only: normalize_player_name_def hash_free)

lemma canonical_roster_key_hash_free [hash_free]:
  "canonical_roster_key (R\<lparr>str_hash := h\<rparr>) = canonical_roster_key R"
  by (intro ext) (simp only: canonical_roster_key_def hash_free)

lemma name_matches_hash_free [hash_free]: "name_matches (R\<lparr>str_hash := h\<rparr>) = name_matches R"
  by (intro ext) (simp only: name_matches_def hash_free)

lemma find_roster_entry_hash_free [hash_free]:
  "find_roster_entry (R\<lparr>str_hash := h\<rparr>) = find_roster_entry R"
  by (intro ext) (simp only: find_roster_entry_def hash_free)

lemma count_actions_hash_free [hash_free]: "count_actions (R\<lparr>str_hash := h\<rparr>) = count_actions R"
  by (intro ext) (simp only: count_actions_def hash_free)

lemma count_zone_hash_free [hash_free]: "count_zone (R\<lparr>str_hash := h\<rparr>) = count_zone R"
  by (intro ext) (simp only: count_zone_def hash_free)

lemma count_tercio_hash_free [hash_free]: "count_tercio (R\<lparr>str_hash := h\<rparr>) = count_tercio R"
  by (intro ext) (simp only: count_tercio_def hash_free)

lemma count_position_hash_free [hash_free]: "count_position (R\<lparr>str_hash := h\<rparr>) = count_position R"
  by (intro ext) (simp only: count_position_def hash_free)

lemma count_shots_passes_hash_free [hash_free]:
  "count_shots_passes (R\<lparr>str_hash := h\<rparr>) = count_shots_passes R"
  by (intro ext) (simp only: count_shots_passes_def hash_free)

lemma match_success_rate_hash_free [hash_free]:
  "match_success_rate (R\<lparr>str_hash := h\<rparr>) = match_success_rate R"
  by (intro ext) (simp only: match_success_rate_def hash_free)

lemma count_match_hash_free [hash_free]: "count_match (R\<lparr>str_hash := h\<rparr>) = count_match R"
  by (intro ext) (simp only: count_match_def hash_free)

lemma count_event_hash_free [hash_free]: "count_event (R\<lparr>str_hash := h\<rparr>) = count_event R"
  by (intro ext) (simp only: count_event_def hash_free)

lemma event_step_hash_free [hash_free]: "event_step (R\<lparr>str_hash := h\<rparr>) = event_step R"
  by (intro ext) (simp only: event_step_def hash_free)

lemma fold_events_hash_free:
  "fold_events (R\<lparr>str_hash := h\<rparr>) primary_team roster_cache player_stats events
     = fold_events R primary_team roster_cache player_stats events"
  by (induction events arbitrary: player_stats) (simp_all add: hash_free split: sum.splits)

lemma record_timeline_hash_free [hash_free]:
  "record_timeline (R\<lparr>str_hash := h\<rparr>) = record_timeline R"
  by (intro ext) (simp only: record_timeline_def hash_free)

lemma live_step_hash_free [hash_free]: "live_step (R\<lparr>str_hash := h\<rparr>) = live_step R"
  by (intro ext) (simp only: live_step_def hash_free)

lemma roster_only_stats_hash_free [hash_free]:
  "roster_only_stats (R\<lparr>str_hash := h\<rparr>) = roster_only_stats R"
  by (intro ext) (simp only: roster_only_stats_def hash_free)

lemma add_roster_player_hash_free [hash_free]:
  "add_roster_player (R\<lparr>str_hash := h\<rparr>) = add_roster_player R"
  by (intro ext) (simp only: add_roster_player_def hash_free)

lemma match_sort_key_hash_free [hash_free]: "match_sort_key (R\<lparr>str_hash := h\<rparr>) = match_sort_key R"
  by (intro ext) (simp only: match_sort_key_def hash_free)

lemma sorted_matches_hash_free [hash_free]: "sorted_matches (R\<lparr>str_hash := h\<rparr>) = sorted_matches R"
  by (intro ext) (simp only: sorted_matches_def hash_free)

lemma percentage_hash_free [hash_free]: "percentage (R\<lparr>str_hash := h\<rparr>) = percentage R"
  by (intro ext) (simp only: percentage_def hash_free)

lemma tercio_summary_hash_free:
  "tercio_summary (R\<lparr>str_hash := h\<rparr>) totals total_tercios labels
     = tercio_summary R totals total_tercios labels"
  by (induction labels) (simp_all add: hash_free cong: sum.case_cong)

lemma merge_stats_hash_free [hash_free]: "merge_stats (R\<lparr>str_hash := h\<rparr>) = merge_stats R"
  by (intro ext) (simp only: merge_stats_def hash_free tercio_summary_hash_free)

lemma merge_all_hash_free:
  "merge_all (R\<lparr>str_hash := h\<rparr>) roster_cache leftover stats_list
     = merge_all R roster_cache leftover stats_list"
  by (induction stats_list) (simp_all add: hash_free cong: sum.case_cong)

lemma reconstructed_stats_hash_free [hash_free]:
  "reconstructed_stats (R\<lparr>str_hash := h\<rparr>) = reconstructed_stats R"
  by (intro ext) (simp only: reconstructed_stats_def hash_free fold_events_hash_free)

lemma compute_player_dashboard_hash_free:
  "compute_player_dashboard (R\<lparr>str_hash := h\<rparr>) = compute_player_dashboard R"
  by (intro ext) (simp only: compute_player_dashboard_def hash_free merge_all_hash_free)

section \<open>Claims about repeated runs\<close>

text \<open>
  C4. Two runs of \<open>compute_player_dashboard\<close> on identical collections (the events, the
  players and the roster, each in the same order) can differ only in the hash of the
  strings, which changes from one process to the next and fixes the order in which the
  keyword sets are iterated. The output, with the order of all its lists, is the same
  under any two hashes; and so is the entry that \<open>find_roster_entry\<close> returns, whose
  substring fallback walks the roster in its given order.
\<close>

theorem C4_same_output_under_any_hash:
  "compute_player_dashboard (R\<lparr>str_hash := h\<rparr>) primary_team MatchEvent_objects Player_objects
     roster_cache
   = compute_player_dashboard (R\<lparr>str_hash := h'\<rparr>) primary_team MatchEvent_objects Player_objects
       roster_cache
   \<and> find_roster_entry (R\<lparr>str_hash := h\<rparr>) player_name roster_cache
     = find_roster_entry (R\<lparr>str_hash := h'\<rparr>) player_name roster_cache"
  by (simp only: compute_player_dashboard_hash_free find_roster_entry_hash_free)

text \<open>
  C4 on the sample: with the sets iterated in the order written, or sorted by the
  length of the keywords, the dashboard is the same.
\<close>

theorem C4_same_output_witness:
  "compute_player_dashboard (ascii_runtime\<lparr>str_hash := (\<lambda>s. 0)\<rparr>) benagalbon sample_events [ana] []
   = compute_player_dashboard (ascii_runtime\<lparr>str_hash := length\<rparr>) benagalbon sample_events [ana] []
   \<and> find_roster_entry (ascii_runtime\<lparr>str_hash := (\<lambda>s. 0)\<rparr>) (u ''Manu'') []
     = find_roster_entry (ascii_runtime\<lparr>str_hash := length\<rparr>) (u ''Manu'') []"
  by (rule C4_same_output_under_any_hash)

section \<open>The dashboard of the sample\<close>

lemma sample_dashboard:
  "map_sum id (map summary)
     (compute_player_dashboard ascii_runtime benagalbon sample_events [ana] [])
   = Inr [((7, True), (1, 1, 20), [(4, u ''Jornada 1'', Some (u ''2024-02-11'')), (3, u ''Jornada 2'', Some (u ''2024-01-14''))],
           50, 0, (1, 0, 0), (1, 1, 100))]"
  by code_simp

lemma sample_dashboard_result:
  obtains merged where
    "compute_player_dashboard ascii_runtime benagalbon sample_events [ana] [] = Inr [merged]"
    "summary merged = ((7, True), (1, 1, 20), [(4, u ''Jornada 1'', Some (u ''2024-02-11'')), (3, u ''Jornada 2'', Some (u ''2024-01-14''))],
                       50, 0, (1, 0, 0), (1, 1, 100))"
proof (cases "compute_player_dashboard ascii_runtime benagalbon sample_events [ana] []")
  case (Inl err)
  with sample_dashboard show ?thesis by simp
next
  case (Inr result)
  with sample_dashboard have
    "map summary result = [((7, True), (1, 1, 20), [(4, u ''Jornada 1'', Some (u ''2024-02-11'')), (3, u ''Jornada 2'', Some (u ''2024-01-14''))],
                            50, 0, (1, 0, 0), (1, 1, 100))]"
    by simp
  then obtain merged where "result = [merged]"
    "summary merged = ((7, True), (1, 1, 20), [(4, u ''Jornada 1'', Some (u ''2024-02-11'')), (3, u ''Jornada 2'', Some (u ''2024-01-14''))],
                       50, 0, (1, 0, 0), (1, 1, 100))"
    by (cases result) auto
  with Inr that show ?thesis by simp
qed

lemma ascii_runtime_to_double:
  "mono (to_double ascii_runtime)" "to_double ascii_runtime 0 = 0"
  "to_double ascii_runtime 1 = 1" "to_double ascii_runtime 100 = 100"
  by (simp_all add: ascii_runtime_def mono_def)

text \<open>
  C2 on the sample: one success in two actions, no duel, one shot off target and one
  completed pass give the rates 50, 0, 0 and 100.
\<close>

theorem C2_rates_witness:
  "compute_player_dashboard ascii_runtime benagalbon sample_events [ana] [] \<noteq> Inl ZeroDivisionError
   \<and> (\<exists>merged.
         compute_player_dashboard ascii_runtime benagalbon sample_events [ana] [] = Inr [merged]
         \<and> out_success_rate merged = 50 \<and> out_duel_rate merged = 0
         \<and> snd (snd (out_shots merged)) = 0 \<and> snd (snd (out_passes merged)) = 100
         \<and> 0 \<le> out_success_rate merged \<and> out_success_rate merged \<le> 100
         \<and> 0 \<le> out_duel_rate merged \<and> out_duel_rate merged \<le> 100
         \<and> 0 \<le> snd (snd (out_shots merged)) \<and> snd (snd (out_shots merged)) \<le> 100
         \<and> 0 \<le> snd (snd (out_passes merged)) \<and> snd (snd (out_passes merged)) \<le> 100)"
proof -
  obtain merged where
    r: "compute_player_dashboard ascii_runtime benagalbon sample_events [ana] [] = Inr [merged]"
    and s: "summary merged = ((7, True), (1, 1, 20), [(4, u ''Jornada 1'', Some (u ''2024-02-11'')), (3, u ''Jornada 2'', Some (u ''2024-01-14''))],
                              50, 0, (1, 0, 0), (1, 1, 100))"
    by (rule sample_dashboard_result)
  from C2_rates_within_0_and_100 [OF ascii_runtime_to_double, of benagalbon sample_events "[ana]" "[]"] r
  have "compute_player_dashboard ascii_runtime benagalbon sample_events [ana] [] \<noteq> Inl ZeroDivisionError
        \<and> 0 \<le> out_success_rate merged \<and> out_success_rate merged \<le> 100
        \<and> 0 \<le> out_duel_rate merged \<and> out_duel_rate merged \<le> 100
        \<and> 0 \<le> snd (snd (out_shots merged)) \<and> snd (snd (out_shots merged)) \<le> 100
        \<and> 0 \<le> snd (snd (out_passes merged)) \<and> snd (snd (out_passes merged)) \<le> 100"
    by simp
  with r s show ?thesis
    by (auto simp: summary_def)
qed

text \<open>
  C9, as the specification states it: in every per-player output the list of matches
  is in the order of the dates. On the sample, round 1 was played on 11 February and
  round 2 on 14 January; the output lists round 1 first, the later date before the
  earlier one.
\<close>

theorem C9_matches_by_date_counterexample:
  "(\<exists>merged.
      compute_player_dashboard ascii_runtime benagalbon sample_events [ana] [] = Inr [merged]
      \<and> map me_date (out_matches merged) = [Some (u ''2024-02-11''), Some (u ''2024-01-14'')])
   \<and> u ''2024-01-14'' < u ''2024-02-11''"
proof -
  obtain merged where
    r: "compute_player_dashboard ascii_runtime benagalbon sample_events [ana] [] = Inr [merged]"
    and s: "summary merged = ((7, True), (1, 1, 20), [(4, u ''Jornada 1'', Some (u ''2024-02-11'')), (3, u ''Jornada 2'', Some (u ''2024-01-14''))],
                              50, 0, (1, 0, 0), (1, 1, 100))"
    by (rule sample_dashboard_result)
  from s have "map me_date (out_matches merged) = [Some (u ''2024-02-11''), Some (u ''2024-01-14'')]"
    by (auto simp: summary_def)
  moreover have "u ''2024-01-14'' < u ''2024-02-11''"
    by code_simp
  ultimately show ?thesis using r
    by (intro conjI exI [of _ merged]) simp_all
qed

text \<open>
  C9, amended, on the sample: the rounds are numbered 1 and 2, and the two matches are
  in the order of their rounds.
\<close>

theorem C9_matches_sorted_witness:
  "\<exists>merged.
     compute_player_dashboard ascii_runtime benagalbon sample_events [ana] [] = Inr [merged]
     \<and> map me_match_id (out_matches merged) = [4, 3]
     \<and> map me_round (out_matches merged) = [u ''Jornada 1'', u ''Jornada 2'']
     \<and> sorted (map (round_date_key ascii_runtime) (out_matches merged))"
proof -
  obtain merged where
    r: "compute_player_dashboard ascii_runtime benagalbon sample_events [ana] [] = Inr [merged]"
    and s: "summary merged = ((7, True), (1, 1, 20),
                              [(4, u ''Jornada 1'', Some (u ''2024-02-11'')),
                               (3, u ''Jornada 2'', Some (u ''2024-01-14''))],
                              50, 0, (1, 0, 0), (1, 1, 100))"
    by (rule sample_dashboard_result)
  from s have ids: "map me_match_id (out_matches merged) = [4, 3]"
    and rounds: "map me_round (out_matches merged) = [u ''Jornada 1'', u ''Jornada 2'']"
    by (auto simp: summary_def)
  have numbers: "extract_round_number ascii_runtime (u ''Jornada 1'') = Some 1"
    "extract_round_number ascii_runtime (u ''Jornada 2'') = Some 2"
    by code_simp+
  have "\<forall>match_entry \<in> set (out_matches merged).
          extract_round_number ascii_runtime (me_round match_entry) \<noteq> Some 0"
  proof
    fix match_entry
    assume "match_entry \<in> set (out_matches merged)"
    then have "me_round match_entry \<in> set (map me_round (out_matches merged))"
      by simp
    with rounds have "me_round match_entry = u ''Jornada 1'' \<or> me_round match_entry = u ''Jornada 2''"
      by (simp only: set_simps insert_iff empty_iff simp_thms)
    with numbers show "extract_round_number ascii_runtime (me_round match_entry) \<noteq> Some 0"
      by auto
  qed
  from C9_matches_sorted_by_round_then_date [OF r _ this]
  have "sorted (map (round_date_key ascii_runtime) (out_matches merged))"
    by simp
  with ids rounds r show ?thesis
    by (intro conjI exI [of _ merged]) simp_all
qed

text \<open>
  C5, as the specification states it: the count of appearances grows for every pair
  of player and match with an event of any provenance. The sample player has no roster
  entry and has events in two matches, the imported pass in match 3 and the shot of
  the touch field in match 4; the count of matches played is 1.
\<close>

theorem C5_any_provenance_counterexample:
  "\<exists>merged.
     compute_player_dashboard ascii_runtime benagalbon sample_events [ana] [] = Inr [merged]
     \<and> map me_match_id (out_matches merged) = [4, 3]
     \<and> pj (out_stats merged) = 1"
proof -
  obtain merged where
    r: "compute_player_dashboard ascii_runtime benagalbon sample_events [ana] [] = Inr [merged]"
    and s: "summary merged = ((7, True), (1, 1, 20),
                              [(4, u ''Jornada 1'', Some (u ''2024-02-11'')), (3, u ''Jornada 2'', Some (u ''2024-01-14''))],
                              50, 0, (1, 0, 0), (1, 1, 100))"
    by (rule sample_dashboard_result)
  from s have "map me_match_id (out_matches merged) = [4, 3]" "pj (out_stats merged) = 1"
    by (auto simp: summary_def)
  with r show ?thesis
    by (intro exI [of _ merged]) simp
qed

text \<open>
  C5, amended, on the sample: the count 1 is the baseline 0 plus the one match with an
  event of the touch field.
\<close>

theorem C5_appearances_witness:
  "\<exists>merged.
     compute_player_dashboard ascii_runtime benagalbon sample_events [ana] [] = Inr [merged]
     \<and> has_events (out_stats merged)
     \<and> pj (out_stats merged) = 1
     \<and> (\<exists>event \<in> set (confirmed_events benagalbon sample_events). \<exists>player.
           e_player event = Some player
           \<and> p_id player = player_id (out_stats merged)
           \<and> pj (out_stats merged)
               = baseline_pj ascii_runtime [] player
                 + int (card {mid. \<exists>live \<in> set (live_events benagalbon sample_events).
                                     concerns (player_id (out_stats merged)) mid live}))"
proof -
  obtain merged where
    r: "compute_player_dashboard ascii_runtime benagalbon sample_events [ana] [] = Inr [merged]"
    and s: "summary merged = ((7, True), (1, 1, 20),
                              [(4, u ''Jornada 1'', Some (u ''2024-02-11'')), (3, u ''Jornada 2'', Some (u ''2024-01-14''))],
                              50, 0, (1, 0, 0), (1, 1, 100))"
    by (rule sample_dashboard_result)
  from s have h: "has_events (out_stats merged)" and p: "pj (out_stats merged) = 1"
    by (auto simp: summary_def)
  from C5_appearances_count_touch_field_matches [OF r _ h] h p r show ?thesis
    by (intro exI [of _ merged]) simp
qed

section \<open>The roster of the sample\<close>

lemma sample_roster_lookup:
  "map_of (load_player_roster_stats ascii_runtime [sample_row]) (u ''manuel-torres-palenzuela'')
     = Some sample_row
   \<and> normalize_player_name ascii_runtime (u ''Manu'') = u ''manu''"
  by code_simp

text \<open>
  C8 on the sample: in the roster built from the row of Manuel Torres Palenzuela, the
  alias \<open>manu\<close>, the name \<open>Manu\<close> and the display name resolve to the same entry.
\<close>

theorem C8_alias_and_target_witness:
  "find_roster_entry ascii_runtime (u ''manu'') (load_player_roster_stats ascii_runtime [sample_row])
     = Some sample_row
   \<and> find_roster_entry ascii_runtime (u ''Manu'') (load_player_roster_stats ascii_runtime [sample_row])
     = Some sample_row
   \<and> find_roster_entry ascii_runtime (u ''Manuel Torres Palenzuela'')
       (load_player_roster_stats ascii_runtime [sample_row])
     = Some sample_row"
proof -
  have a: "(u ''manu'', u ''manuel-torres-palenzuela'') \<in> set ALIAS_MAP"
    by (simp add: ALIAS_MAP_def)
  have b: "normalize_player_name ascii_runtime (u ''Manu'') = u ''manu''"
    using sample_roster_lookup by simp
  have c: "load_player_roster_stats ascii_runtime [sample_row]
             = load_player_roster_stats ascii_runtime [sample_row]"
    by simp
  have d: "map_of (load_player_roster_stats ascii_runtime [sample_row])
             (u ''manuel-torres-palenzuela'') = Some sample_row"
    using sample_roster_lookup by simp
  have e: "r_name sample_row = u ''Manuel Torres Palenzuela''"
    by (simp add: sample_row_def)
  from C8_alias_and_target_resolve_alike [OF a b c d] e show ?thesis
    by simp
qed

end
